theory Spec2Isabelle
  imports Main
begin

unbundle bit_operations_syntax

section \<open>PyMataCommandHandler: the data model\<close>

text \<open>
  The module \<^verbatim>\<open>pymata_command_handler.py\<close> holds one class, \<^verbatim>\<open>PyMataCommandHandler\<close>.
  Its Python integers are modelled as \<^typ>\<open>int\<close>, its lists as HOL lists, and every
  exception the code can raise is a value.
\<close>

subsection \<open>Protocol constants (class attributes that are never rebound)\<close>

abbreviation (input) START_SYSEX :: int where "START_SYSEX \<equiv> 0xF0"
abbreviation (input) END_SYSEX :: int where "END_SYSEX \<equiv> 0xF7"
abbreviation (input) SYSTEM_RESET :: int where "SYSTEM_RESET \<equiv> 0xFF"
abbreviation (input) DIGITAL_MESSAGE :: int where "DIGITAL_MESSAGE \<equiv> 0x90"
abbreviation (input) ANALOG_MESSAGE :: int where "ANALOG_MESSAGE \<equiv> 0xE0"
abbreviation (input) REPORT_VERSION :: int where "REPORT_VERSION \<equiv> 0xF9"
abbreviation (input) ENCODER_DATA :: int where "ENCODER_DATA \<equiv> 0x21"
abbreviation (input) STRING_DATA :: int where "STRING_DATA \<equiv> 0x71"
abbreviation (input) REPORT_FIRMWARE :: int where "REPORT_FIRMWARE \<equiv> 0x79"
abbreviation (input) INPUT :: int where "INPUT \<equiv> 0x00"

text \<open>Indexes into a response table entry, and into the data of a message.\<close>

abbreviation (input) RESPONSE_TABLE_MODE :: int where "RESPONSE_TABLE_MODE \<equiv> 0"
abbreviation (input) RESPONSE_TABLE_PIN_DATA_VALUE :: int where "RESPONSE_TABLE_PIN_DATA_VALUE \<equiv> 1"
abbreviation (input) MSB :: int where "MSB \<equiv> 2"
abbreviation (input) LSB :: int where "LSB \<equiv> 1"

subsection \<open>Failures\<close>

text \<open>
  \<open>Raised e\<close> is an uncaught Python exception. \<open>Blocked\<close> is a call of
  \<^verbatim>\<open>data_lock.acquire(True)\<close> on a lock that is held: the call suspends its thread until
  another thread releases the lock, and in a sequential run no other thread does.
\<close>

datatype py_exception = IndexError | TypeError | ValueError

datatype failure = Raised py_exception | Blocked

subsection \<open>Objects and the process state\<close>

text \<open>
  A response table entry is the two-element list \<^verbatim>\<open>[mode, value]\<close>; the code reads and
  writes it at \<^verbatim>\<open>RESPONSE_TABLE_MODE\<close> and \<^verbatim>\<open>RESPONSE_TABLE_PIN_DATA_VALUE\<close> only.
\<close>

record response_entry =
  entry_mode :: int
  entry_value :: int

text \<open>
  The elements of \<^verbatim>\<open>firmata_firmware\<close> (two integers, then a string) and what
  \<^verbatim>\<open>_string_data\<close> prints (a string, then a list of one-character strings).
\<close>

datatype py_value = PyInt int | PyStr string | PyChars "char list"

text \<open>
  The two response tables are list objects, created once when the class body runs and
  mutated in place ever after: \<^verbatim>\<open>digital_response_table = []\<close> and
  \<^verbatim>\<open>analog_response_table = []\<close> are class attributes, and no method rebinds them on
  the class or on an instance. So the state has an explicit store of list objects,
  \<open>heap\<close>, and the two attributes are the fixed addresses of the two objects.
  \<^verbatim>\<open>firmata_version\<close> and \<^verbatim>\<open>firmata_firmware\<close> are class attributes of the same kind; no
  reference to them is handed out, so the state holds their contents.

  The lock, the transport and standard output are objects outside the class: the state
  records which locks are held, what each transport has been asked to write, and what
  has been printed.
\<close>

type_synonym addr = nat
type_synonym lock_ref = nat
type_synonym transport_ref = nat

record process =
  heap :: "addr \<Rightarrow> response_entry list"
  firmata_version :: "int list"
  firmata_firmware :: "py_value list"
  lock_held :: "lock_ref \<Rightarrow> bool"
  written :: "transport_ref \<Rightarrow> string"
  printed :: "py_value list"

definition digital_response_table :: addr where
  "digital_response_table = 0"

definition analog_response_table :: addr where
  "analog_response_table = 1"

text \<open>The state after the class body has run and before any instance exists.\<close>

definition class_body :: process where
  "class_body =
     \<lparr>heap = (\<lambda>_. []), firmata_version = [], firmata_firmware = [],
      lock_held = (\<lambda>_. False), written = (\<lambda>_. []), printed = []\<rparr>"

text \<open>
  The instance attributes that \<^verbatim>\<open>__init__\<close> sets. The pin counts are counts, so naturals.
  \<^verbatim>\<open>command_deque\<close> is filled by another thread; the bytes it delivers are an argument of
  the receive loop below.
\<close>

record handler =
  data_lock :: lock_ref
  number_digital_pins :: nat
  number_analog_pins :: nat
  transport :: transport_ref

subsection \<open>Python primitives\<close>

text \<open>\<^verbatim>\<open>xs[i]\<close>: a negative index counts from the end, an index out of range raises.\<close>

definition py_index :: "nat \<Rightarrow> int \<Rightarrow> failure + nat" where
  "py_index n i =
     (let j = (if i < 0 then int n + i else i)
      in if 0 \<le> j \<and> j < int n then Inr (nat j) else Inl (Raised IndexError))"

definition py_getitem :: "'a list \<Rightarrow> int \<Rightarrow> failure + 'a" where
  "py_getitem xs i =
     (case py_index (length xs) i of Inl e \<Rightarrow> Inl e | Inr j \<Rightarrow> Inr (xs ! j))"

text \<open>\<^verbatim>\<open>range(a, b)\<close>.\<close>

definition py_range :: "int \<Rightarrow> int \<Rightarrow> int list" where
  "py_range a b = [a..b - 1]"

text \<open>\<^verbatim>\<open>xs[::2]\<close>: the elements at the even offsets.\<close>

fun slice_step2 :: "'a list \<Rightarrow> 'a list" where
  "slice_step2 [] = []"
| "slice_step2 [x] = [x]"
| "slice_step2 (x # y # xs) = x # slice_step2 xs"

text \<open>\<^verbatim>\<open>chr(i)\<close> of Python 2: a one-byte string for \<open>0 \<le> i < 256\<close>, ValueError otherwise.\<close>

definition py_chr :: "int \<Rightarrow> failure + char" where
  "py_chr i = (if 0 \<le> i \<and> i < 256 then Inr (char_of i) else Inl (Raised ValueError))"

text \<open>\<^verbatim>\<open>for i in xs: out.append(chr(i))\<close>, stopping at the first exception.\<close>

fun chr_each :: "int list \<Rightarrow> failure + char list" where
  "chr_each [] = Inr []"
| "chr_each (i # xs) =
     (case py_chr i of
        Inl e \<Rightarrow> Inl e
      | Inr c \<Rightarrow> (case chr_each xs of Inl e \<Rightarrow> Inl e | Inr cs \<Rightarrow> Inr (c # cs)))"

subsection \<open>Atomic steps and their execution\<close>

text \<open>
  A method is a sequence of steps, one for each statement that touches the shared
  state. A step either fails, leaving the state as it is, or yields the next state.
  \<open>exec\<close> runs the steps in order and stops at the first failure; \<open>exec_trace\<close> lists the
  state after each step that succeeded.
\<close>

type_synonym step = "process \<Rightarrow> failure + process"

datatype 'a result = Returns 'a process | Fails failure process

fun exec :: "step list \<Rightarrow> process \<Rightarrow> unit result" where
  "exec [] s = Returns () s"
| "exec (f # fs) s = (case f s of Inl e \<Rightarrow> Fails e s | Inr s' \<Rightarrow> exec fs s')"

fun exec_trace :: "step list \<Rightarrow> process \<Rightarrow> process list" where
  "exec_trace [] s = []"
| "exec_trace (f # fs) s = (case f s of Inl e \<Rightarrow> [] | Inr s' \<Rightarrow> s' # exec_trace fs s')"

fun state_of :: "'a result \<Rightarrow> process" where
  "state_of (Returns _ s) = s"
| "state_of (Fails _ s) = s"

fun failure_of :: "'a result \<Rightarrow> failure option" where
  "failure_of (Returns _ s) = None"
| "failure_of (Fails e s) = Some e"

definition raise :: "failure \<Rightarrow> step" where
  "raise e s = Inl e"

text \<open>\<^verbatim>\<open>lock.acquire(True)\<close> and \<^verbatim>\<open>lock.release()\<close>.\<close>

definition lock_acquire :: "lock_ref \<Rightarrow> step" where
  "lock_acquire l s =
     (if lock_held s l then Inl Blocked else Inr (s\<lparr>lock_held := (lock_held s)(l := True)\<rparr>))"

definition lock_release :: "lock_ref \<Rightarrow> step" where
  "lock_release l s = Inr (s\<lparr>lock_held := (lock_held s)(l := False)\<rparr>)"

text \<open>\<^verbatim>\<open>transport.write(data)\<close>.\<close>

definition transport_write :: "transport_ref \<Rightarrow> string \<Rightarrow> step" where
  "transport_write t data s = Inr (s\<lparr>written := (written s)(t := written s t @ data)\<rparr>)"

text \<open>\<^verbatim>\<open>table.append(response_entry)\<close> and \<^verbatim>\<open>table.pop()\<close> on the list object at \<open>a\<close>.\<close>

definition list_append :: "addr \<Rightarrow> response_entry \<Rightarrow> step" where
  "list_append a e s = Inr (s\<lparr>heap := (heap s)(a := heap s a @ [e])\<rparr>)"

definition list_pop :: "addr \<Rightarrow> step" where
  "list_pop a s =
     (if heap s a = [] then Inl (Raised IndexError)
      else Inr (s\<lparr>heap := (heap s)(a := butlast (heap s a))\<rparr>))"

text \<open>\<^verbatim>\<open>table[pin][RESPONSE_TABLE_PIN_DATA_VALUE] = v\<close> on the list object at \<open>a\<close>.\<close>

definition store_pin_data_value :: "addr \<Rightarrow> int \<Rightarrow> int \<Rightarrow> step" where
  "store_pin_data_value a pin v s =
     (case py_index (length (heap s a)) pin of
        Inl e \<Rightarrow> Inl e
      | Inr j \<Rightarrow>
          Inr (s\<lparr>heap := (heap s)(a := (heap s a)[j := (heap s a ! j)\<lparr>entry_value := v\<rparr>])\<rparr>))"

section \<open>The methods\<close>

subsection \<open>\<^verbatim>\<open>__init__\<close>\<close>

text \<open>
  The constructor appends one entry \<^verbatim>\<open>[INPUT, 0]\<close> for each pin to the two tables
  (the class attributes), then sets the instance attributes. It takes no lock.
\<close>

definition init_steps :: "nat \<Rightarrow> nat \<Rightarrow> step list" where
  "init_steps n_digital n_analog =
     map (\<lambda>pin. list_append digital_response_table \<lparr>entry_mode = INPUT, entry_value = 0\<rparr>)
       (py_range 0 (int n_digital)) @
     map (\<lambda>pin. list_append analog_response_table \<lparr>entry_mode = INPUT, entry_value = 0\<rparr>)
       (py_range 0 (int n_analog))"

definition init :: "transport_ref \<Rightarrow> lock_ref \<Rightarrow> nat \<Rightarrow> nat \<Rightarrow> process \<Rightarrow> handler result" where
  "init tr lk n_digital n_analog s =
     (case exec (init_steps n_digital n_analog) s of
        Fails e s' \<Rightarrow> Fails e s'
      | Returns _ s' \<Rightarrow>
          Returns \<lparr>data_lock = lk, number_digital_pins = n_digital,
                   number_analog_pins = n_analog, transport = tr\<rparr> s')"

subsection \<open>Handlers of the messages received from Firmata\<close>

definition report_version_steps :: "handler \<Rightarrow> int list \<Rightarrow> step list" where
  "report_version_steps self data =
     [(\<lambda>s. case py_getitem data 0 of
             Inl e \<Rightarrow> Inl e
           | Inr major \<Rightarrow> Inr (s\<lparr>firmata_version := firmata_version s @ [major]\<rparr>)),
      (\<lambda>s. case py_getitem data 1 of
             Inl e \<Rightarrow> Inl e
           | Inr minor \<Rightarrow> Inr (s\<lparr>firmata_version := firmata_version s @ [minor]\<rparr>))]"

text \<open>
  \<^verbatim>\<open>name_data = data[2:]\<close>, then \<^verbatim>\<open>chr\<close> of every element of \<^verbatim>\<open>name_data[::2]\<close>, joined.
\<close>

definition report_firmware_steps :: "handler \<Rightarrow> int list \<Rightarrow> step list" where
  "report_firmware_steps self data =
     [(\<lambda>s. case py_getitem data 0 of
             Inl e \<Rightarrow> Inl e
           | Inr major \<Rightarrow> Inr (s\<lparr>firmata_firmware := firmata_firmware s @ [PyInt major]\<rparr>)),
      (\<lambda>s. case py_getitem data 1 of
             Inl e \<Rightarrow> Inl e
           | Inr minor \<Rightarrow> Inr (s\<lparr>firmata_firmware := firmata_firmware s @ [PyInt minor]\<rparr>)),
      (\<lambda>s. case chr_each (slice_step2 (drop 2 data)) of
             Inl e \<Rightarrow> Inl e
           | Inr file_name \<Rightarrow>
               Inr (s\<lparr>firmata_firmware := firmata_firmware s @ [PyStr file_name]\<rparr>))]"

text \<open>
  The right-hand side \<^verbatim>\<open>(data[MSB] << 7) + data[LSB]\<close> is evaluated before the target
  \<^verbatim>\<open>analog_response_table[data[0]]\<close>, all of it with the lock held.
\<close>

definition analog_message_steps :: "handler \<Rightarrow> int list \<Rightarrow> step list" where
  "analog_message_steps self data =
     [lock_acquire (data_lock self),
      (\<lambda>s. case py_getitem data MSB of Inl e \<Rightarrow> Inl e | Inr msb \<Rightarrow>
            (case py_getitem data LSB of Inl e \<Rightarrow> Inl e | Inr lsb \<Rightarrow>
            (case py_getitem data RESPONSE_TABLE_MODE of Inl e \<Rightarrow> Inl e | Inr pin \<Rightarrow>
               store_pin_data_value analog_response_table pin (push_bit 7 msb + lsb) s))),
      lock_release (data_lock self)]"

text \<open>
  The loop of \<^verbatim>\<open>digital_message\<close> over \<^verbatim>\<open>range(pin, pin + 8)\<close>: each round takes the lock,
  stores the lowest bit of \<^verbatim>\<open>port_data\<close>, releases the lock and shifts \<^verbatim>\<open>port_data\<close>.
\<close>

fun digital_message_loop :: "handler \<Rightarrow> int list \<Rightarrow> int \<Rightarrow> step list" where
  "digital_message_loop self [] port_data = []"
| "digital_message_loop self (pin # pins) port_data =
     lock_acquire (data_lock self) #
     store_pin_data_value digital_response_table pin (port_data AND 0x01) #
     lock_release (data_lock self) #
     digital_message_loop self pins (drop_bit 1 port_data)"

definition digital_message_steps :: "handler \<Rightarrow> int list \<Rightarrow> step list" where
  "digital_message_steps self data =
     (case py_getitem data 0 of Inl e \<Rightarrow> [raise e] | Inr port \<Rightarrow>
     (case py_getitem data MSB of Inl e \<Rightarrow> [raise e] | Inr msb \<Rightarrow>
     (case py_getitem data LSB of Inl e \<Rightarrow> [raise e] | Inr lsb \<Rightarrow>
        digital_message_loop self (py_range (port * 8) (port * 8 + 8))
          (push_bit 7 msb + lsb))))"

text \<open>
  The effect of that loop on the digital table alone, as a function of the table; the
  lemmas below state the result of the loop with it.
\<close>

fun store_bits :: "response_entry list \<Rightarrow> int list \<Rightarrow> int \<Rightarrow> response_entry list" where
  "store_bits t [] port_data = t"
| "store_bits t (pin # pins) port_data =
     store_bits (t[nat pin := (t ! nat pin)\<lparr>entry_value := port_data AND 0x01\<rparr>]) pins
       (drop_bit 1 port_data)"

text \<open>\<^verbatim>\<open>val\<close> is computed before the lock is taken.\<close>

definition encoder_data_steps :: "handler \<Rightarrow> int list \<Rightarrow> step list" where
  "encoder_data_steps self data =
     (case py_getitem data MSB of Inl e \<Rightarrow> [raise e] | Inr msb \<Rightarrow>
     (case py_getitem data LSB of Inl e \<Rightarrow> [raise e] | Inr lsb \<Rightarrow>
        (let val = push_bit 7 msb + lsb;
             val = (if val > 8192 then val - 16384 else val)
         in [lock_acquire (data_lock self),
             (\<lambda>s. case py_getitem data RESPONSE_TABLE_MODE of
                     Inl e \<Rightarrow> Inl e
                   | Inr pin \<Rightarrow> store_pin_data_value digital_response_table pin val s),
             lock_release (data_lock self)])))"

definition string_data_steps :: "handler \<Rightarrow> int list \<Rightarrow> step list" where
  "string_data_steps self data =
     [(\<lambda>s. Inr (s\<lparr>printed := printed s @ [PyStr ''_string_data:'']\<rparr>)),
      (\<lambda>s. case chr_each (slice_step2 data) of
             Inl e \<Rightarrow> Inl e
           | Inr string_to_print \<Rightarrow>
               Inr (s\<lparr>printed := printed s @ [PyChars string_to_print]\<rparr>))]"

definition report_version :: "handler \<Rightarrow> int list \<Rightarrow> process \<Rightarrow> unit result" where
  "report_version self data = exec (report_version_steps self data)"

definition report_firmware :: "handler \<Rightarrow> int list \<Rightarrow> process \<Rightarrow> unit result" where
  "report_firmware self data = exec (report_firmware_steps self data)"

definition analog_message :: "handler \<Rightarrow> int list \<Rightarrow> process \<Rightarrow> unit result" where
  "analog_message self data = exec (analog_message_steps self data)"

definition digital_message :: "handler \<Rightarrow> int list \<Rightarrow> process \<Rightarrow> unit result" where
  "digital_message self data = exec (digital_message_steps self data)"

definition encoder_data :: "handler \<Rightarrow> int list \<Rightarrow> process \<Rightarrow> unit result" where
  "encoder_data self data = exec (encoder_data_steps self data)"

definition string_data :: "handler \<Rightarrow> int list \<Rightarrow> process \<Rightarrow> unit result" where
  "string_data self data = exec (string_data_steps self data)"

subsection \<open>The table accessors\<close>

text \<open>
  \<^verbatim>\<open>data = self.analog_response_table\<close> binds \<^verbatim>\<open>data\<close> to the list object itself, and
  that reference is what the method returns.
\<close>

definition get_analog_response_table :: "handler \<Rightarrow> process \<Rightarrow> addr result" where
  "get_analog_response_table self s =
     (case exec [lock_acquire (data_lock self), lock_release (data_lock self)] s of
        Fails e s' \<Rightarrow> Fails e s'
      | Returns _ s' \<Rightarrow> Returns analog_response_table s')"

definition get_digital_response_table :: "handler \<Rightarrow> process \<Rightarrow> addr result" where
  "get_digital_response_table self s =
     (case exec [lock_acquire (data_lock self), lock_release (data_lock self)] s of
        Fails e s' \<Rightarrow> Fails e s'
      | Returns _ s' \<Rightarrow> Returns digital_response_table s')"

subsection \<open>\<^verbatim>\<open>system_reset\<close>\<close>

text \<open>
  The bounds of the two \<^verbatim>\<open>pop\<close> loops are the lengths of the tables when the loops
  start; no earlier step of the method changes a table, so they are the lengths in the
  state \<open>s\<close> in which the method is called.
\<close>

definition system_reset_steps :: "handler \<Rightarrow> process \<Rightarrow> step list" where
  "system_reset_steps self s =
     transport_write (transport self) [char_of SYSTEM_RESET] #
     lock_acquire (data_lock self) #
     map (\<lambda>_. list_pop digital_response_table)
       (py_range 0 (int (length (heap s digital_response_table)))) @
     map (\<lambda>_. list_pop analog_response_table)
       (py_range 0 (int (length (heap s analog_response_table)))) @
     map (\<lambda>pin. list_append digital_response_table \<lparr>entry_mode = INPUT, entry_value = 0\<rparr>)
       (py_range 0 (int (number_digital_pins self))) @
     map (\<lambda>pin. list_append analog_response_table \<lparr>entry_mode = INPUT, entry_value = 0\<rparr>)
       (py_range 0 (int (number_analog_pins self))) @
     [lock_release (data_lock self)]"

definition system_reset :: "handler \<Rightarrow> process \<Rightarrow> unit result" where
  "system_reset self s = exec (system_reset_steps self s) s"

section \<open>The receive loop\<close>

text \<open>
  \<^verbatim>\<open>command_dispatch\<close> after the six \<^verbatim>\<open>update\<close> calls at the start of \<^verbatim>\<open>run\<close>: the command
  is the key, the value is the method and its number of parameter bytes.
\<close>

datatype bound_method =
  Report_version | Report_firmware | Analog_message | Digital_message | Encoder_data
  | String_data

definition command_dispatch :: "int \<rightharpoonup> bound_method \<times> nat" where
  "command_dispatch =
     [REPORT_VERSION \<mapsto> (Report_version, 2),
      REPORT_FIRMWARE \<mapsto> (Report_firmware, 1),
      ANALOG_MESSAGE \<mapsto> (Analog_message, 2),
      DIGITAL_MESSAGE \<mapsto> (Digital_message, 2),
      ENCODER_DATA \<mapsto> (Encoder_data, 3),
      STRING_DATA \<mapsto> (String_data, 2)]"

fun invoke :: "bound_method \<Rightarrow> handler \<Rightarrow> int list \<Rightarrow> process \<Rightarrow> unit result" where
  "invoke Report_version = report_version"
| "invoke Report_firmware = report_firmware"
| "invoke Analog_message = analog_message"
| "invoke Digital_message = digital_message"
| "invoke Encoder_data = encoder_data"
| "invoke String_data = string_data"

text \<open>
  The bytes that the transport thread appends to \<^verbatim>\<open>command_deque\<close> are the list \<open>deque\<close>,
  in order of arrival; \<^verbatim>\<open>popleft\<close> takes its head. When the list is used up the loop
  polls the empty deque for ever.

  The inner loop of a sysex message collects bytes up to \<^verbatim>\<open>END_SYSEX\<close>; \<open>None\<close> when the
  deque runs out first.
\<close>

fun read_sysex :: "int list \<Rightarrow> int list \<Rightarrow> (int list \<times> int list) option" where
  "read_sysex [] command_data = None"
| "read_sysex (data # deque) command_data =
     (if data \<noteq> END_SYSEX then read_sysex deque (command_data @ [data])
      else Some (command_data, deque))"

text \<open>\<^verbatim>\<open>for i in range(num_args)\<close>: one byte for each round.\<close>

fun read_args :: "nat \<Rightarrow> int list \<Rightarrow> int list \<Rightarrow> (int list \<times> int list) option" where
  "read_args 0 deque command_data = Some (command_data, deque)"
| "read_args (Suc n) [] command_data = None"
| "read_args (Suc n) (data # deque) command_data = read_args n deque (command_data @ [data])"

text \<open>
  \<^verbatim>\<open>run\<close> has no normal return. \<open>Polling s\<close>: every byte of the deque is consumed and the
  loop waits for more, in state \<open>s\<close>. \<open>Stopped e s\<close>: the thread has ended with the
  uncaught exception \<open>e\<close>, or is blocked for ever, in state \<open>s\<close>.
\<close>

datatype outcome = Polling process | Stopped failure process

lemma read_sysex_length:
  "read_sysex deque command_data = Some (cd, rest) \<Longrightarrow> length rest < length deque"
  by (induction deque command_data rule: read_sysex.induct) (auto split: if_splits)

lemma read_args_length:
  "read_args n deque command_data = Some (cd, rest) \<Longrightarrow> length rest \<le> length deque"
  by (induction n deque command_data rule: read_args.induct) auto

function run :: "handler \<Rightarrow> int list \<Rightarrow> process \<Rightarrow> outcome" where
  "run self [] s = Polling s"
| "run self (data # deque) s =
     (if data = START_SYSEX then
        (case deque of
           [] \<Rightarrow> Polling s
         | sysex_command # deque' \<Rightarrow>
             (case command_dispatch sysex_command of
                None \<Rightarrow> Stopped (Raised TypeError) s
              | Some (meth, num_args) \<Rightarrow>
                  (case read_sysex deque' [] of
                     None \<Rightarrow> Polling s
                   | Some (command_data, rest) \<Rightarrow>
                       (case invoke meth self command_data s of
                          Fails e s' \<Rightarrow> Stopped e s'
                        | Returns _ s' \<Rightarrow> run self rest s'))))
      else if 0x80 \<le> data \<and> data \<le> 0xff then
        (case (if 0x90 \<le> data \<and> data \<le> 0x9f then ([data AND 0xf], 0x90)
               else if 0xe0 \<le> data \<and> data \<le> 0xe9 then ([data AND 0xf], 0xe0)
               else ([], data)) of
           (command_data, data) \<Rightarrow>
             (case command_dispatch data of
                None \<Rightarrow> Stopped (Raised TypeError) s
              | Some (meth, num_args) \<Rightarrow>
                  (case read_args num_args deque command_data of
                     None \<Rightarrow> Polling s
                   | Some (command_data, rest) \<Rightarrow>
                       (case invoke meth self command_data s of
                          Fails e s' \<Rightarrow> Stopped e s'
                        | Returns _ s' \<Rightarrow> run self rest s'))))
      else run self deque s)"
  by pat_completeness auto
termination
proof (relation "measure (\<lambda>(self, deque, s). length deque)")
  show "wf (measure (\<lambda>(self, deque, s). length deque))"
    by simp
next
  fix self :: handler and data :: int and deque s x2 sysex_command deque' x2a x y x2b xa ya
    and x1 :: unit and x2c
  assume "read_sysex deque' [] = Some x2b" "(xa, ya) = x2b" "deque = sysex_command # deque'"
  then show "((self, ya, x2c), self, data # deque, s) \<in> measure (\<lambda>(self, deque, s). length deque)"
    using read_sysex_length [of deque' "[]" xa ya] by simp
next
  fix self :: handler and data :: int and deque s x xa y x2 xb ya x2a xc yb
    and x1 :: unit and x2b
  assume "read_args ya deque xa = Some x2a" "(xc, yb) = x2a"
  then show "((self, yb, x2b), self, data # deque, s) \<in> measure (\<lambda>(self, deque, s). length deque)"
    using read_args_length [of ya deque xa xc yb] by simp
next
  fix self :: handler and data :: int and deque s
  show "((self, deque, s), self, data # deque, s) \<in> measure (\<lambda>(self, deque, s). length deque)"
    by simp
qed

section \<open>Basic facts about steps, loops and the reset\<close>

lemma exec_append:
  "exec (fs @ gs) s = (case exec fs s of Fails e s' \<Rightarrow> Fails e s' | Returns u s' \<Rightarrow> exec gs s')"
  by (induction fs arbitrary: s) (auto split: sum.splits)

lemma exec_trace_append:
  "exec_trace (fs @ gs) s =
     exec_trace fs s @ (case exec fs s of Fails e s' \<Rightarrow> [] | Returns u s' \<Rightarrow> exec_trace gs s')"
  by (induction fs arbitrary: s) (auto split: sum.splits)

lemma length_py_range: "length (py_range 0 (int n)) = n"
  by (simp add: py_range_def)

lemma exec_list_append:
  "exec (map (\<lambda>pin. list_append a e) xs) s
     = Returns () (s\<lparr>heap := (heap s)(a := heap s a @ replicate (length xs) e)\<rparr>)"
proof (induction xs arbitrary: s)
  case Nil
  show ?case by simp
next
  case (Cons x xs)
  define s1 where "s1 = s\<lparr>heap := (heap s)(a := heap s a @ [e])\<rparr>"
  have step: "list_append a e s = Inr s1"
    by (simp add: list_append_def s1_def)
  have "exec (map (\<lambda>pin. list_append a e) (x # xs)) s
          = exec (map (\<lambda>pin. list_append a e) xs) s1"
    by (simp only: list.map exec.simps step sum.case)
  also have "\<dots> = Returns () (s1\<lparr>heap := (heap s1)(a := heap s1 a @ replicate (length xs) e)\<rparr>)"
    by (rule Cons.IH)
  also have "s1\<lparr>heap := (heap s1)(a := heap s1 a @ replicate (length xs) e)\<rparr>
          = s\<lparr>heap := (heap s)(a := heap s a @ replicate (length (x # xs)) e)\<rparr>"
    by (simp add: s1_def)
  finally show ?case .
qed

lemma exec_list_pop:
  "length xs \<le> length (heap s a) \<Longrightarrow>
   exec (map (\<lambda>_. list_pop a) xs) s
     = Returns () (s\<lparr>heap := (heap s)(a := take (length (heap s a) - length xs) (heap s a))\<rparr>)"
proof (induction xs arbitrary: s)
  case Nil
  show ?case by simp
next
  case (Cons x xs)
  define s1 where "s1 = s\<lparr>heap := (heap s)(a := butlast (heap s a))\<rparr>"
  have ne: "heap s a \<noteq> []" using Cons.prems by auto
  have step: "list_pop a s = Inr s1"
    using ne by (simp add: list_pop_def s1_def)
  have le: "length xs \<le> length (heap s1 a)"
    using Cons.prems by (simp add: s1_def)
  have "exec (map (\<lambda>_. list_pop a) (x # xs)) s = exec (map (\<lambda>_. list_pop a) xs) s1"
    by (simp only: list.map exec.simps step sum.case)
  also have "\<dots> = Returns () (s1\<lparr>heap := (heap s1)(a := take (length (heap s1 a) - length xs) (heap s1 a))\<rparr>)"
    by (rule Cons.IH [OF le])
  also have "s1\<lparr>heap := (heap s1)(a := take (length (heap s1 a) - length xs) (heap s1 a))\<rparr>
          = s\<lparr>heap := (heap s)(a := take (length (heap s a) - length (x # xs)) (heap s a))\<rparr>"
    by (simp add: s1_def butlast_conv_take min_def)
  finally show ?case .
qed


lemma tables_distinct: "digital_response_table \<noteq> analog_response_table"
  by (simp add: digital_response_table_def analog_response_table_def)

lemma system_reset_returns:
  assumes free: "\<not> lock_held s (data_lock self)"
  shows "system_reset self s =
     Returns ()
       (s\<lparr>written := (written s)(transport self := written s (transport self) @ [char_of SYSTEM_RESET]),
          heap := (heap s)
            (digital_response_table :=
               replicate (number_digital_pins self) \<lparr>entry_mode = INPUT, entry_value = 0\<rparr>,
             analog_response_table :=
               replicate (number_analog_pins self) \<lparr>entry_mode = INPUT, entry_value = 0\<rparr>)\<rparr>)"
proof -
  let ?d = digital_response_table and ?a = analog_response_table
  let ?e = "\<lparr>entry_mode = INPUT, entry_value = 0\<rparr>"
  define s2 where "s2 = s\<lparr>written := (written s)(transport self := written s (transport self) @ [char_of SYSTEM_RESET]),
                           lock_held := (lock_held s)(data_lock self := True)\<rparr>"
  define pops_d where "pops_d = map (\<lambda>_. list_pop ?d) (py_range 0 (int (length (heap s ?d))))"
  define pops_a where "pops_a = map (\<lambda>_. list_pop ?a) (py_range 0 (int (length (heap s ?a))))"
  define apps_d where "apps_d = map (\<lambda>pin. list_append ?d ?e) (py_range 0 (int (number_digital_pins self)))"
  define apps_a where "apps_a = map (\<lambda>pin. list_append ?a ?e) (py_range 0 (int (number_analog_pins self)))"
  have steps: "system_reset_steps self s =
      transport_write (transport self) [char_of SYSTEM_RESET] # lock_acquire (data_lock self) #
      pops_d @ pops_a @ apps_d @ apps_a @ [lock_release (data_lock self)]"
    by (simp only: system_reset_steps_def pops_d_def pops_a_def apps_d_def apps_a_def)
  define s3 where "s3 = s2\<lparr>heap := (heap s2)(?d := [])\<rparr>"
  define s4 where "s4 = s3\<lparr>heap := (heap s3)(?a := [])\<rparr>"
  define s5 where "s5 = s4\<lparr>heap := (heap s4)(?d := replicate (number_digital_pins self) ?e)\<rparr>"
  define s6 where "s6 = s5\<lparr>heap := (heap s5)(?a := replicate (number_analog_pins self) ?e)\<rparr>"
  have e3: "exec pops_d s2 = Returns () s3"
    unfolding pops_d_def
    using exec_list_pop [of "py_range 0 (int (length (heap s ?d)))" s2 ?d]
    by (simp add: length_py_range s2_def s3_def)
  have e4: "exec pops_a s3 = Returns () s4"
    unfolding pops_a_def
    using exec_list_pop [of "py_range 0 (int (length (heap s ?a)))" s3 ?a] tables_distinct
    by (simp add: length_py_range s2_def s3_def s4_def)
  have e5: "exec apps_d s4 = Returns () s5"
    unfolding apps_d_def
    using exec_list_append [of ?d ?e "py_range 0 (int (number_digital_pins self))" s4] tables_distinct
    by (simp add: length_py_range s4_def s3_def s5_def)
  have e6: "exec apps_a s5 = Returns () s6"
    unfolding apps_a_def
    using exec_list_append [of ?a ?e "py_range 0 (int (number_analog_pins self))" s5] tables_distinct
    by (simp add: length_py_range s4_def s3_def s5_def s6_def)
  have mid: "exec (pops_d @ pops_a @ apps_d @ apps_a @ [lock_release (data_lock self)]) s2
      = Returns () (s6\<lparr>lock_held := (lock_held s6)(data_lock self := False)\<rparr>)"
    by (simp add: exec_append e3 e4 e5 e6 lock_release_def)
  have "system_reset self s = Returns () (s6\<lparr>lock_held := (lock_held s6)(data_lock self := False)\<rparr>)"
    using free
    by (simp add: system_reset_def steps transport_write_def lock_acquire_def mid [unfolded s2_def])
  moreover have "(lock_held s)(data_lock self := False) = lock_held s"
    using free by (simp add: fun_upd_idem)
  ultimately show ?thesis
    using tables_distinct
    by (simp add: s6_def s5_def s4_def s3_def s2_def fun_upd_twist)
qed


lemma exec_trace_preserves:
  assumes "\<And>f u u'. f \<in> set fs \<Longrightarrow> f u = Inr u' \<Longrightarrow> P u \<Longrightarrow> P u'" and "P s"
    and "t \<in> set (exec_trace fs s)"
  shows "P t"
  using assms
proof (induction fs arbitrary: s)
  case Nil
  then show ?case by simp
next
  case (Cons f fs)
  show ?case
  proof (cases "f s")
    case (Inl e)
    with Cons.prems(3) show ?thesis by simp
  next
    case (Inr s')
    have P': "P s'" using Cons.prems(1) [of f s s'] Inr Cons.prems(2) by simp
    from Cons.prems(3) Inr have "t = s' \<or> t \<in> set (exec_trace fs s')" by simp
    then show ?thesis
    proof
      assume "t = s'" with P' show ?thesis by simp
    next
      assume m: "t \<in> set (exec_trace fs s')"
      show ?thesis
      proof (rule Cons.IH [OF _ P' m])
        fix g u u' assume "g \<in> set fs" "g u = Inr u'" "P u"
        then show "P u'" using Cons.prems(1) [of g u u'] by simp
      qed
    qed
  qed
qed

lemma list_pop_lock: "list_pop a u = Inr u' \<Longrightarrow> lock_held u' = lock_held u"
  by (auto simp: list_pop_def split: if_splits)

lemma list_append_lock: "list_append a e u = Inr u' \<Longrightarrow> lock_held u' = lock_held u"
  by (auto simp: list_append_def)

lemma system_reset_trace_lock:
  assumes free: "\<not> lock_held s (data_lock self)"
    and t: "t \<in> set (exec_trace (system_reset_steps self s) s)"
    and tfree: "\<not> lock_held t (data_lock self)"
  shows "heap t = heap s \<or> Returns () t = system_reset self s"
proof -
  let ?d = digital_response_table and ?a = analog_response_table
  let ?e = "\<lparr>entry_mode = INPUT, entry_value = 0\<rparr>"
  define s1 where "s1 = s\<lparr>written := (written s)(transport self := written s (transport self) @ [char_of SYSTEM_RESET])\<rparr>"
  define s2 where "s2 = s1\<lparr>lock_held := (lock_held s)(data_lock self := True)\<rparr>"
  define body where "body =
       map (\<lambda>_. list_pop ?d) (py_range 0 (int (length (heap s ?d)))) @
       map (\<lambda>_. list_pop ?a) (py_range 0 (int (length (heap s ?a)))) @
       map (\<lambda>pin. list_append ?d ?e) (py_range 0 (int (number_digital_pins self))) @
       map (\<lambda>pin. list_append ?a ?e) (py_range 0 (int (number_analog_pins self)))"
  have steps: "system_reset_steps self s =
      transport_write (transport self) [char_of SYSTEM_RESET] # lock_acquire (data_lock self) #
      body @ [lock_release (data_lock self)]"
    by (simp only: system_reset_steps_def body_def append_assoc)
  have body_lock: "lock_held u (data_lock self)" if "u \<in> set (exec_trace body s2)" for u
  proof (rule exec_trace_preserves [where P = "\<lambda>u. lock_held u (data_lock self)" and fs = body and s = s2])
    fix f u u' assume "f \<in> set body" "f u = Inr u'" "lock_held u (data_lock self)"
    then show "lock_held u' (data_lock self)"
      by (auto simp: body_def dest: list_pop_lock list_append_lock)
  next
    show "lock_held s2 (data_lock self)" by (simp add: s2_def)
  next
    show "u \<in> set (exec_trace body s2)" by (rule that)
  qed
  have tr: "exec_trace (system_reset_steps self s) s
      = s1 # s2 # exec_trace (body @ [lock_release (data_lock self)]) s2"
    using free by (simp add: steps transport_write_def lock_acquire_def s1_def s2_def)
  have ex: "system_reset self s = exec (body @ [lock_release (data_lock self)]) s2"
    using free by (simp add: system_reset_def steps transport_write_def lock_acquire_def s1_def s2_def)
  from t tr have alt: "t = s1 \<or> t = s2 \<or> t \<in> set (exec_trace (body @ [lock_release (data_lock self)]) s2)"
    by simp
  show ?thesis
  proof (cases "exec body s2")
    case (Fails e u)
    then have "exec_trace (body @ [lock_release (data_lock self)]) s2 = exec_trace body s2"
      by (simp add: exec_trace_append)
    with alt body_lock tfree show ?thesis
      by (auto simp: s1_def s2_def)
  next
    case (Returns x u)
    then have "exec_trace (body @ [lock_release (data_lock self)]) s2
        = exec_trace body s2 @ [u\<lparr>lock_held := (lock_held u)(data_lock self := False)\<rparr>]"
      and "system_reset self s = Returns () (u\<lparr>lock_held := (lock_held u)(data_lock self := False)\<rparr>)"
      by (simp_all add: ex exec_trace_append exec_append lock_release_def)
    with alt body_lock tfree show ?thesis
      by (auto simp: s1_def s2_def)
  qed
qed


lemma store_pin_data_value_lock:
  "store_pin_data_value a pin v u = Inr u' \<Longrightarrow> lock_held u' = lock_held u"
  by (auto simp: store_pin_data_value_def split: sum.splits)

lemma digital_message_loop_observable:
  assumes "\<not> lock_held s (data_lock self)"
  shows "(t \<in> set (exec_trace (digital_message_loop self pins port_data) s)
            \<and> \<not> lock_held t (data_lock self))
         \<longleftrightarrow> (\<exists>j. 0 < j \<and> j \<le> length pins
                \<and> exec (digital_message_loop self (take j pins) port_data) s = Returns () t)"
  using assms
proof (induction pins arbitrary: s port_data)
  case Nil
  show ?case by simp
next
  case (Cons pin pins)
  let ?l = "data_lock self"
  let ?rest = "digital_message_loop self pins (drop_bit 1 port_data)"
  define sa where "sa = s\<lparr>lock_held := (lock_held s)(?l := True)\<rparr>"
  have acq: "lock_acquire ?l s = Inr sa"
    using Cons.prems by (simp add: lock_acquire_def sa_def)
  have sa_lock: "lock_held sa ?l" by (simp add: sa_def)
  show ?case
  proof (cases "store_pin_data_value digital_response_table pin (port_data AND 0x01) sa")
    case (Inl e)
    have tr: "exec_trace (digital_message_loop self (pin # pins) port_data) s = [sa]"
      by (simp add: acq Inl)
    have ex: "exec (digital_message_loop self (take (Suc j) (pin # pins)) port_data) s = Fails e sa" for j
      by (simp add: acq Inl)
    have "\<not> (\<exists>j. 0 < j \<and> j \<le> length (pin # pins)
                \<and> exec (digital_message_loop self (take j (pin # pins)) port_data) s = Returns () t)"
    proof
      assume "\<exists>j. 0 < j \<and> j \<le> length (pin # pins)
                \<and> exec (digital_message_loop self (take j (pin # pins)) port_data) s = Returns () t"
      then obtain j where "0 < j"
        and r: "exec (digital_message_loop self (take j (pin # pins)) port_data) s = Returns () t"
        by blast
      then obtain j' where "j = Suc j'" by (cases j) auto
      with r ex [of j'] show False by simp
    qed
    then show ?thesis using tr sa_lock by auto
  next
    case (Inr sb)
    define sc where "sc = sb\<lparr>lock_held := (lock_held sb)(?l := False)\<rparr>"
    have sb_lock: "lock_held sb ?l"
      using store_pin_data_value_lock [OF Inr] sa_lock by simp
    have sc_free: "\<not> lock_held sc ?l" by (simp add: sc_def)
    have rel: "lock_release ?l sb = Inr sc" by (simp add: lock_release_def sc_def)
    have tr: "exec_trace (digital_message_loop self (pin # pins) port_data) s
                = sa # sb # sc # exec_trace ?rest sc"
      by (simp add: acq Inr rel)
    have ex: "exec (digital_message_loop self (take (Suc j) (pin # pins)) port_data) s
                = exec (digital_message_loop self (take j pins) (drop_bit 1 port_data)) sc" for j
      by (simp add: acq Inr rel)
    note IH = Cons.IH [OF sc_free, of "drop_bit 1 port_data"]
    show ?thesis
    proof
      assume L: "t \<in> set (exec_trace (digital_message_loop self (pin # pins) port_data) s)
                  \<and> \<not> lock_held t ?l"
      with tr sa_lock sb_lock have "t = sc \<or> t \<in> set (exec_trace ?rest sc)" by auto
      then show "\<exists>j. 0 < j \<and> j \<le> length (pin # pins)
                \<and> exec (digital_message_loop self (take j (pin # pins)) port_data) s = Returns () t"
      proof
        assume "t = sc"
        then have "exec (digital_message_loop self (take (Suc 0) (pin # pins)) port_data) s = Returns () t"
          using ex [of 0] by simp
        moreover have "0 < Suc 0 \<and> Suc 0 \<le> length (pin # pins)" by simp
        ultimately show ?thesis by blast
      next
        assume "t \<in> set (exec_trace ?rest sc)"
        with L IH obtain j where j: "0 < j" "j \<le> length pins"
          and r: "exec (digital_message_loop self (take j pins) (drop_bit 1 port_data)) sc = Returns () t"
          by blast
        from r have "exec (digital_message_loop self (take (Suc j) (pin # pins)) port_data) s = Returns () t"
          by (simp only: ex)
        moreover have "0 < Suc j \<and> Suc j \<le> length (pin # pins)" using j by simp
        ultimately show ?thesis by blast
      qed
    next
      assume "\<exists>j. 0 < j \<and> j \<le> length (pin # pins)
                \<and> exec (digital_message_loop self (take j (pin # pins)) port_data) s = Returns () t"
      then obtain j where j: "0 < j" "j \<le> length (pin # pins)"
        and r: "exec (digital_message_loop self (take j (pin # pins)) port_data) s = Returns () t"
        by blast
      then obtain j' where j': "j = Suc j'" by (cases j) auto
      with r have r': "exec (digital_message_loop self (take j' pins) (drop_bit 1 port_data)) sc = Returns () t"
        by (simp only: ex)
      show "t \<in> set (exec_trace (digital_message_loop self (pin # pins) port_data) s)
                  \<and> \<not> lock_held t ?l"
      proof (cases j')
        case 0
        with r' have "t = sc" by simp
        then show ?thesis using tr sc_free by simp
      next
        case (Suc k)
        with r' j j' IH have "t \<in> set (exec_trace ?rest sc) \<and> \<not> lock_held t ?l"
          by auto
        then show ?thesis using tr by simp
      qed
    qed
  qed
qed


lemma length_store_bits: "length (store_bits t pins port_data) = length t"
  by (induction t pins port_data rule: store_bits.induct) simp_all

lemma digital_message_loop_returns:
  assumes "\<not> lock_held s (data_lock self)"
    and "\<forall>pin \<in> set pins. 0 \<le> pin \<and> pin < int (length (heap s digital_response_table))"
  shows "exec (digital_message_loop self pins port_data) s =
     Returns () (s\<lparr>heap := (heap s)(digital_response_table :=
        store_bits (heap s digital_response_table) pins port_data)\<rparr>)"
  using assms
proof (induction pins arbitrary: s port_data)
  case Nil
  show ?case by simp
next
  case (Cons pin pins)
  let ?l = "data_lock self" and ?d = digital_response_table
  define tbl where "tbl = (heap s ?d)[nat pin := (heap s ?d ! nat pin)\<lparr>entry_value := port_data AND 0x01\<rparr>]"
  define sc where "sc = s\<lparr>heap := (heap s)(?d := tbl)\<rparr>"
  have pin: "0 \<le> pin" "pin < int (length (heap s ?d))" using Cons.prems(2) by simp_all
  have round: "exec (digital_message_loop self (pin # pins) port_data) s
                 = exec (digital_message_loop self pins (drop_bit 1 port_data)) sc"
    using Cons.prems(1) pin
    by (simp add: lock_acquire_def lock_release_def store_pin_data_value_def py_index_def
        sc_def tbl_def fun_upd_idem)
  have free: "\<not> lock_held sc ?l" using Cons.prems(1) by (simp add: sc_def)
  have rng: "\<forall>pin \<in> set pins. 0 \<le> pin \<and> pin < int (length (heap sc ?d))"
    using Cons.prems(2) by (simp add: sc_def tbl_def)
  have "exec (digital_message_loop self (pin # pins) port_data) s
          = Returns () (sc\<lparr>heap := (heap sc)(?d :=
              store_bits (heap sc ?d) pins (drop_bit 1 port_data))\<rparr>)"
    by (simp only: round Cons.IH [OF free rng])
  also have "sc\<lparr>heap := (heap sc)(?d := store_bits (heap sc ?d) pins (drop_bit 1 port_data))\<rparr>
          = s\<lparr>heap := (heap s)(?d := store_bits (heap s ?d) (pin # pins) port_data)\<rparr>"
    by (simp add: sc_def tbl_def)
  finally show ?case .
qed

lemma store_bits_upto_nth:
  assumes "0 \<le> a" and "k < length t"
  shows "store_bits t [a..a + int n - 1] port_data ! k =
     (if a \<le> int k \<and> int k < a + int n
      then (t ! k)\<lparr>entry_value := drop_bit (nat (int k - a)) port_data AND 0x01\<rparr>
      else t ! k)"
  using assms
proof (induction n arbitrary: a t port_data)
  case 0
  then show ?case by simp
next
  case (Suc n)
  let ?t' = "t[nat a := (t ! nat a)\<lparr>entry_value := port_data AND 0x01\<rparr>]"
  have up: "[a..a + int (Suc n) - 1] = a # [a + 1..a + 1 + int n - 1]"
    by (simp add: upto_rec1 [of a] add.commute add.left_commute)
  have IH: "store_bits ?t' [a + 1..a + 1 + int n - 1] (drop_bit 1 port_data) ! k =
     (if a + 1 \<le> int k \<and> int k < a + 1 + int n
      then (?t' ! k)\<lparr>entry_value := drop_bit (nat (int k - (a + 1))) (drop_bit 1 port_data) AND 0x01\<rparr>
      else ?t' ! k)"
    using Suc.prems by (intro Suc.IH) simp_all
  have eq: "store_bits t [a..a + int (Suc n) - 1] port_data ! k
       = store_bits ?t' [a + 1..a + 1 + int n - 1] (drop_bit 1 port_data) ! k"
    by (simp only: up store_bits.simps)
  have shift: "drop_bit (nat (int k - (a + 1))) (drop_bit 1 port_data) = drop_bit (nat (int k - a)) port_data"
    if "a + 1 \<le> int k"
  proof -
    from that have "nat (int k - (a + 1)) + 1 = nat (int k - a)" by simp
    then show ?thesis by (simp add: drop_bit_drop_bit add.commute)
  qed
  show ?case
    unfolding eq IH
  proof (cases "int k = a")
    case True
    then have "nat a = k" by simp
    with True Suc.prems show "(if a + 1 \<le> int k \<and> int k < a + 1 + int n
      then (?t' ! k)\<lparr>entry_value := drop_bit (nat (int k - (a + 1))) (drop_bit 1 port_data) AND 0x01\<rparr>
      else ?t' ! k) = (if a \<le> int k \<and> int k < a + int (Suc n)
      then (t ! k)\<lparr>entry_value := drop_bit (nat (int k - a)) port_data AND 0x01\<rparr>
      else t ! k)"
      by simp
  next
    case False
    then have ne: "nat a \<noteq> k" using Suc.prems(1) by auto
    show "(if a + 1 \<le> int k \<and> int k < a + 1 + int n
      then (?t' ! k)\<lparr>entry_value := drop_bit (nat (int k - (a + 1))) (drop_bit 1 port_data) AND 0x01\<rparr>
      else ?t' ! k) = (if a \<le> int k \<and> int k < a + int (Suc n)
      then (t ! k)\<lparr>entry_value := drop_bit (nat (int k - a)) port_data AND 0x01\<rparr>
      else t ! k)"
    proof (cases "a + 1 \<le> int k")
      case True
      with ne shift [OF True] show ?thesis by simp
    next
      case F2: False
      with False ne show ?thesis by simp
    qed
  qed
qed

lemma init_returns:
  "init tr lk n_digital n_analog s =
     Returns \<lparr>data_lock = lk, number_digital_pins = n_digital,
              number_analog_pins = n_analog, transport = tr\<rparr>
       (s\<lparr>heap := (heap s)
            (digital_response_table := heap s digital_response_table
               @ replicate n_digital \<lparr>entry_mode = INPUT, entry_value = 0\<rparr>,
             analog_response_table := heap s analog_response_table
               @ replicate n_analog \<lparr>entry_mode = INPUT, entry_value = 0\<rparr>)\<rparr>)"
  using tables_distinct
  by (simp add: init_def init_steps_def exec_append exec_list_append length_py_range)

lemma digital_message_steps_triple:
  "digital_message_steps self [port, lsb, msb]
     = digital_message_loop self (py_range (port * 8) (port * 8 + 8)) (push_bit 7 msb + lsb)"
  by (simp add: digital_message_steps_def py_getitem_def py_index_def)

lemma py_range_rec: "py_range a b = (if a < b then a # py_range (a + 1) b else [])"
  by (simp add: py_range_def upto_rec1)

lemma py_range_8_in_range:
  assumes "0 \<le> a" and "a + 8 \<le> int n"
  shows "\<forall>pin \<in> set (py_range a (a + 8)). 0 \<le> pin \<and> pin < int n"
  using assms by (auto simp: py_range_def)

lemma digital_message_returns:
  assumes free: "\<not> lock_held s (data_lock self)" and port: "0 \<le> port"
    and rng: "port * 8 + 8 \<le> int (length (heap s digital_response_table))"
  shows "digital_message self [port, lsb, msb] s =
     Returns () (s\<lparr>heap := (heap s)(digital_response_table :=
        store_bits (heap s digital_response_table) [port * 8..port * 8 + int 8 - 1]
          (push_bit 7 msb + lsb))\<rparr>)"
proof -
  have "0 \<le> port * 8" using port by simp
  from py_range_8_in_range [OF this rng]
  show ?thesis
    using digital_message_loop_returns [OF free, of "py_range (port * 8) (port * 8 + 8)"
        "push_bit 7 msb + lsb"]
    by (simp add: digital_message_def digital_message_steps_triple py_range_def)
qed

text \<open>
  Every 14-bit value is \<open>(msb << 7) + lsb\<close> for its low seven bits \<open>lsb\<close> and the bits above
  them \<open>msb\<close>, both below 128.
\<close>

lemma fourteen_bit_encoding:
  fixes v :: int
  assumes "0 \<le> v" and "v < 16384"
  shows "push_bit 7 (drop_bit 7 v) + (v AND 0x7F) = v"
    and "0 \<le> v AND 0x7F" and "v AND 0x7F < 128"
    and "0 \<le> drop_bit 7 v" and "drop_bit 7 v < 128"
proof -
  have m: "v AND 0x7F = take_bit 7 v"
    by (simp add: take_bit_eq_mask mask_eq_exp_minus_1)
  show "push_bit 7 (drop_bit 7 v) + (v AND 0x7F) = v"
    by (simp only: m bits_ident)
  show "0 \<le> v AND 0x7F" "v AND 0x7F < 128"
    by (simp_all add: m take_bit_eq_mod)
  show "0 \<le> drop_bit 7 v" "drop_bit 7 v < 128"
    using assms by (simp_all add: drop_bit_eq_div)
qed

lemma low_nibble_of_analog_command:
  fixes k :: int
  assumes "0 \<le> k" and "k \<le> 9"
  shows "(0xE0 + k) AND 0xf = k"
proof -
  have "(0xE0 + k) AND 0xf = take_bit 4 (0xE0 + k)"
    by (simp add: take_bit_eq_mask mask_eq_exp_minus_1)
  also have "\<dots> = (0xE0 + k) mod 16"
    by (simp add: take_bit_eq_mod)
  also have "\<dots> = k"
    using assms by presburger
  finally show ?thesis .
qed

lemma analog_message_beyond_table:
  assumes "\<not> lock_held s (data_lock self)"
    and "int (length (heap s analog_response_table)) \<le> k"
  shows "analog_message self [k, lsb, msb] s
     = Fails (Raised IndexError) (s\<lparr>lock_held := (lock_held s)(data_lock self := True)\<rparr>)"
  using assms
  by (simp add: analog_message_def analog_message_steps_def py_getitem_def py_index_def
      lock_acquire_def store_pin_data_value_def)

lemma encoder_data_beyond_table:
  assumes "\<not> lock_held s (data_lock self)"
    and "int (length (heap s digital_response_table)) \<le> pin"
  shows "encoder_data self [pin, lsb, msb] s
     = Fails (Raised IndexError) (s\<lparr>lock_held := (lock_held s)(data_lock self := True)\<rparr>)"
  using assms
  by (simp add: encoder_data_def encoder_data_steps_def py_getitem_def py_index_def
      lock_acquire_def store_pin_data_value_def Let_def)

lemma chr_each_in_range:
  "\<forall>i \<in> set xs. 0 \<le> i \<and> i < 256 \<Longrightarrow> chr_each xs = Inr (map char_of xs)"
  by (induction xs) (simp_all add: py_chr_def)

lemma length_slice_step2: "length (slice_step2 xs) = (length xs + 1) div 2"
  by (induction xs rule: slice_step2.induct) simp_all

lemma last_slice_step2: "odd (length xs) \<Longrightarrow> last (slice_step2 xs) = last xs"
proof (induction xs rule: slice_step2.induct)
  case 1
  then show ?case by simp
next
  case (2 x)
  show ?case by simp
next
  case (3 x y xs)
  from "3.prems" have o: "odd (length xs)" by simp
  then have "xs \<noteq> []" by auto
  moreover from this have "slice_step2 xs \<noteq> []"
    by (cases xs rule: slice_step2.cases) simp_all
  ultimately show ?case using "3.IH" [OF o] by simp
qed

text \<open>
  The first instance made after the class body has run finds both tables empty, so its
  tables have as many entries as it has pins.
\<close>

lemma first_instance_table_lengths:
  "length (heap (state_of (init tr lk n_digital n_analog class_body)) digital_response_table)
     = n_digital
   \<and> length (heap (state_of (init tr lk n_digital n_analog class_body)) analog_response_table)
     = n_analog"
  using tables_distinct by (simp add: init_returns class_body_def)

lemma encoder_data_triple:
  "encoder_data self [pin, lsb, msb] s =
     exec [lock_acquire (data_lock self),
           store_pin_data_value digital_response_table pin
             (if push_bit 7 msb + lsb > 8192 then push_bit 7 msb + lsb - 16384
              else push_bit 7 msb + lsb),
           lock_release (data_lock self)] s"
  by (simp add: encoder_data_def encoder_data_steps_def py_getitem_def py_index_def Let_def)

section \<open>Unknown commands in the receive loop\<close>

text \<open>
  C1. The claim: a message whose command has no entry in \<^verbatim>\<open>command_dispatch\<close> is discarded,
  the receive loop goes on, and the messages after it are still decoded and dispatched.
  The code: \<^verbatim>\<open>command_dispatch.get\<close> yields \<^verbatim>\<open>None\<close> for such a command, and the next
  statement, \<^verbatim>\<open>method = dispatch_entry[0]\<close>, raises TypeError, which nothing catches: the
  thread ends. Below, for every handler and every state: the sysex command \<open>0x50\<close> and
  the command byte \<open>0xFF\<close> each stop the loop in the state it had, and the report of
  version 2.3 that follows is never dispatched, although the same report on its own is.
\<close>

theorem unknown_command_stops_run:
  "run self [START_SYSEX, 0x50, END_SYSEX, REPORT_VERSION, 2, 3] s = Stopped (Raised TypeError) s
   \<and> run self [SYSTEM_RESET, REPORT_VERSION, 2, 3] s = Stopped (Raised TypeError) s
   \<and> run self [REPORT_VERSION, 2, 3] s
       = Polling (s\<lparr>firmata_version := firmata_version s @ [2, 3]\<rparr>)"
  by (simp add: command_dispatch_def report_version_def report_version_steps_def
      py_getitem_def py_index_def numeral_2_eq_2)

section \<open>The reset\<close>

text \<open>
  C7. \<^verbatim>\<open>system_reset\<close>, called with the data lock free, returns; it has asked the
  transport to write the single byte \<open>0xFF\<close> and nothing else; afterwards every entry of
  both tables is \<^verbatim>\<open>[INPUT, 0]\<close>, the digital table has \<^verbatim>\<open>number_digital_pins\<close> entries and the
  analog table \<^verbatim>\<open>number_analog_pins\<close>. The write comes first: the state after the first
  step of the method is the state of the call with the byte written and both tables
  untouched.
\<close>

theorem system_reset_writes_then_resets:
  assumes "\<not> lock_held s (data_lock self)"
  shows "\<exists>s'. system_reset self s = Returns () s'
     \<and> written s' = (written s)(transport self := written s (transport self) @ [char_of SYSTEM_RESET])
     \<and> heap s' digital_response_table
         = replicate (number_digital_pins self) \<lparr>entry_mode = INPUT, entry_value = 0\<rparr>
     \<and> heap s' analog_response_table
         = replicate (number_analog_pins self) \<lparr>entry_mode = INPUT, entry_value = 0\<rparr>
     \<and> length (heap s' digital_response_table) = number_digital_pins self
     \<and> length (heap s' analog_response_table) = number_analog_pins self
     \<and> hd (exec_trace (system_reset_steps self s) s)
         = s\<lparr>written := (written s)(transport self := written s (transport self) @ [char_of SYSTEM_RESET])\<rparr>"
proof -
  have "hd (exec_trace (system_reset_steps self s) s)
         = s\<lparr>written := (written s)(transport self := written s (transport self) @ [char_of SYSTEM_RESET])\<rparr>"
    by (simp add: system_reset_steps_def transport_write_def)
  then show ?thesis
    using tables_distinct by (simp add: system_reset_returns [OF assms])
qed

text \<open>An instance: a reset of tables that hold one entry each, in mode 1 with value 1.\<close>

theorem system_reset_writes_then_resets_witness:
  "\<exists>s'. system_reset \<lparr>data_lock = 0, number_digital_pins = 2, number_analog_pins = 1, transport = 0\<rparr>
           (class_body\<lparr>heap := (\<lambda>_. [\<lparr>entry_mode = 1, entry_value = 1\<rparr>])\<rparr>) = Returns () s'
     \<and> written s' 0 = [char_of SYSTEM_RESET]
     \<and> heap s' digital_response_table
         = [\<lparr>entry_mode = INPUT, entry_value = 0\<rparr>, \<lparr>entry_mode = INPUT, entry_value = 0\<rparr>]
     \<and> heap s' analog_response_table = [\<lparr>entry_mode = INPUT, entry_value = 0\<rparr>]"
  using system_reset_writes_then_resets
    [of "class_body\<lparr>heap := (\<lambda>_. [\<lparr>entry_mode = 1, entry_value = 1\<rparr>])\<rparr>"
        "\<lparr>data_lock = 0, number_digital_pins = 2, number_analog_pins = 1, transport = 0\<rparr>"]
  by (auto simp add: class_body_def numeral_2_eq_2)

section \<open>The scope of the data lock\<close>

text \<open>
  A reader that holds the data lock runs only while the writer does not hold it, so what
  it can observe of a method are the states of the method's trace in which the lock is
  free.

  C3, as stated, at a concrete input: a digital table of eight entries, all with value 0,
  and the message for port 0 with all eight bits set. The third state of the trace of
  \<^verbatim>\<open>digital_message\<close> has the lock free and the values 1, 0, 0, 0, 0, 0, 0, 0: neither
  the table before the message (all 0) nor the table after it (all 1).
\<close>

theorem digital_message_partial_port_observable:
  "2 < length (exec_trace (digital_message_steps
        \<lparr>data_lock = 0, number_digital_pins = 8, number_analog_pins = 0, transport = 0\<rparr>
        [0, 0x7F, 0x01]) (state_of (init 0 0 8 0 class_body)))
   \<and> \<not> lock_held (exec_trace (digital_message_steps
        \<lparr>data_lock = 0, number_digital_pins = 8, number_analog_pins = 0, transport = 0\<rparr>
        [0, 0x7F, 0x01]) (state_of (init 0 0 8 0 class_body)) ! 2) 0
   \<and> map entry_value (heap (state_of (init 0 0 8 0 class_body)) digital_response_table)
       = [0, 0, 0, 0, 0, 0, 0, 0]
   \<and> map entry_value (heap (exec_trace (digital_message_steps
        \<lparr>data_lock = 0, number_digital_pins = 8, number_analog_pins = 0, transport = 0\<rparr>
        [0, 0x7F, 0x01]) (state_of (init 0 0 8 0 class_body)) ! 2) digital_response_table)
       = [1, 0, 0, 0, 0, 0, 0, 0]
   \<and> map entry_value (heap (state_of (digital_message
        \<lparr>data_lock = 0, number_digital_pins = 8, number_analog_pins = 0, transport = 0\<rparr>
        [0, 0x7F, 0x01] (state_of (init 0 0 8 0 class_body)))) digital_response_table)
       = [1, 1, 1, 1, 1, 1, 1, 1]"
  by (simp add: init_returns digital_message_def digital_message_steps_triple py_range_rec
      class_body_def lock_acquire_def lock_release_def store_pin_data_value_def py_index_def
      eval_nat_numeral tables_distinct)

text \<open>
  C3, amended. With the lock free at the call: \<^verbatim>\<open>system_reset\<close> holds the lock from before
  the first \<^verbatim>\<open>pop\<close> to after the last \<^verbatim>\<open>append\<close>, so every state of its trace with the lock
  free has the tables of the call or is the state the method returns. \<^verbatim>\<open>digital_message\<close>
  takes and releases the lock once for each entry: the states of its trace with the lock
  free are exactly the states after 1, 2, ..., 8 completed rounds of its loop.
\<close>

theorem lock_scope_of_reset_and_digital_message:
  assumes "\<not> lock_held s (data_lock self)"
  shows "(\<forall>t \<in> set (exec_trace (system_reset_steps self s) s).
            \<not> lock_held t (data_lock self) \<longrightarrow>
            heap t = heap s \<or> Returns () t = system_reset self s)
       \<and> (\<forall>t. t \<in> set (exec_trace (digital_message_steps self [port, lsb, msb]) s)
                \<and> \<not> lock_held t (data_lock self)
            \<longleftrightarrow> (\<exists>j. 0 < j \<and> j \<le> 8
                  \<and> exec (digital_message_loop self
                            (take j (py_range (port * 8) (port * 8 + 8)))
                            (push_bit 7 msb + lsb)) s = Returns () t))"
proof (intro conjI ballI allI impI)
  fix t
  assume "t \<in> set (exec_trace (system_reset_steps self s) s)" "\<not> lock_held t (data_lock self)"
  then show "heap t = heap s \<or> Returns () t = system_reset self s"
    by (rule system_reset_trace_lock [OF assms])
next
  fix t
  have len: "length (py_range (port * 8) (port * 8 + 8)) = 8"
    by (simp add: py_range_def)
  show "t \<in> set (exec_trace (digital_message_steps self [port, lsb, msb]) s)
                \<and> \<not> lock_held t (data_lock self)
            \<longleftrightarrow> (\<exists>j. 0 < j \<and> j \<le> 8
                  \<and> exec (digital_message_loop self
                            (take j (py_range (port * 8) (port * 8 + 8)))
                            (push_bit 7 msb + lsb)) s = Returns () t)"
    using digital_message_loop_observable [OF assms,
        of t "py_range (port * 8) (port * 8 + 8)" "push_bit 7 msb + lsb"]
    by (simp only: digital_message_steps_triple len)
qed

text \<open>An instance: the state after the first round of the loop is in the trace.\<close>

theorem lock_scope_of_reset_and_digital_message_witness:
  "state_of (exec (digital_message_loop
        \<lparr>data_lock = 0, number_digital_pins = 8, number_analog_pins = 0, transport = 0\<rparr>
        [0] 0xFF) (state_of (init 0 0 8 0 class_body)))
     \<in> set (exec_trace (digital_message_steps
        \<lparr>data_lock = 0, number_digital_pins = 8, number_analog_pins = 0, transport = 0\<rparr>
        [0, 0x7F, 0x01]) (state_of (init 0 0 8 0 class_body)))
   \<and> map entry_value (heap (state_of (exec (digital_message_loop
        \<lparr>data_lock = 0, number_digital_pins = 8, number_analog_pins = 0, transport = 0\<rparr>
        [0] 0xFF) (state_of (init 0 0 8 0 class_body)))) digital_response_table)
       = [1, 0, 0, 0, 0, 0, 0, 0]"
proof -
  define self where "self = \<lparr>data_lock = 0, number_digital_pins = 8, number_analog_pins = 0, transport = 0\<rparr>"
  define s where "s = state_of (init 0 0 8 0 class_body)"
  define t where "t = state_of (exec (digital_message_loop self [0] 0xFF) s)"
  have free: "\<not> lock_held s (data_lock self)"
    by (simp add: s_def self_def init_returns class_body_def)
  have r: "exec (digital_message_loop self [0] 0xFF) s = Returns () t"
    by (simp add: t_def s_def self_def init_returns class_body_def lock_acquire_def
        lock_release_def store_pin_data_value_def py_index_def tables_distinct)
  have tk: "take 1 (py_range (0 * 8) (0 * 8 + 8)) = [0]"
    by (simp add: py_range_rec)
  have pd: "push_bit 7 (0x01 :: int) + 0x7F = 0xFF"
    by simp
  have one: "\<exists>j. 0 < j \<and> j \<le> 8
      \<and> exec (digital_message_loop self (take j (py_range (0 * 8) (0 * 8 + 8)))
            (push_bit 7 0x01 + 0x7F)) s = Returns () t"
  proof (intro exI [of _ 1] conjI)
    show "exec (digital_message_loop self (take 1 (py_range (0 * 8) (0 * 8 + 8)))
            (push_bit 7 0x01 + 0x7F)) s = Returns () t"
      by (simp only: tk pd r)
  qed simp_all
  have mem: "t \<in> set (exec_trace (digital_message_steps self [0, 0x7F, 0x01]) s)"
    using lock_scope_of_reset_and_digital_message [OF free, of 0 "0x7F" "0x01", THEN conjunct2,
        THEN spec, of t, THEN iffD2, OF one]
    by (rule conjunct1)
  have val: "map entry_value (heap t digital_response_table) = [1, 0, 0, 0, 0, 0, 0, 0]"
    by (simp add: t_def s_def self_def init_returns class_body_def lock_acquire_def
        lock_release_def store_pin_data_value_def py_index_def eval_nat_numeral tables_distinct)
  from mem val show ?thesis
    by (simp only: t_def s_def self_def) 
qed

section \<open>The digital message\<close>

text \<open>
  C4, as stated, at a concrete input: a board with 20 digital pins, and the message for
  port 2, whose pins are 16 to 23. The handler raises IndexError at pin 20; the table
  still has 20 entries, so there is no entry 20 to 23 that could hold a bit.
\<close>

theorem digital_message_port_beyond_table:
  "failure_of (digital_message
        \<lparr>data_lock = 0, number_digital_pins = 20, number_analog_pins = 6, transport = 0\<rparr>
        [2, 0x7F, 0x01] (state_of (init 0 0 20 6 class_body))) = Some (Raised IndexError)
   \<and> length (heap (state_of (digital_message
        \<lparr>data_lock = 0, number_digital_pins = 20, number_analog_pins = 6, transport = 0\<rparr>
        [2, 0x7F, 0x01] (state_of (init 0 0 20 6 class_body)))) digital_response_table) = 20"
  by (simp add: init_returns digital_message_def digital_message_steps_triple py_range_rec
      class_body_def lock_acquire_def lock_release_def store_pin_data_value_def py_index_def
      tables_distinct)

text \<open>
  C4, amended. For every port whose eight pins \<open>port * 8\<close> to \<open>port * 8 + 7\<close> all lie within
  the digital table, and every \<open>b = (msb << 7) + lsb\<close> (the bytes 0 to 255 among them): the
  handler, called with the lock free, returns, and entry \<open>port * 8 + i\<close> then has the value
  \<open>(b >> i) & 1\<close> for every \<open>i\<close> from 0 to 7, with its mode as before. Every other entry
  of the digital table and the whole analog table are as before.
\<close>

theorem digital_message_sets_port_bits:
  assumes "\<not> lock_held s (data_lock self)" and "0 \<le> port"
    and "port * 8 + 8 \<le> int (length (heap s digital_response_table))"
    and "push_bit 7 msb + lsb = b"
  shows "\<exists>s'. digital_message self [port, lsb, msb] s = Returns () s'
     \<and> length (heap s' digital_response_table) = length (heap s digital_response_table)
     \<and> (\<forall>i<8. heap s' digital_response_table ! (nat port * 8 + i)
           = (heap s digital_response_table ! (nat port * 8 + i))
               \<lparr>entry_value := drop_bit i b AND 1\<rparr>)
     \<and> (\<forall>k<length (heap s digital_response_table).
           k < nat port * 8 \<or> nat port * 8 + 8 \<le> k \<longrightarrow>
           heap s' digital_response_table ! k = heap s digital_response_table ! k)
     \<and> heap s' analog_response_table = heap s analog_response_table"
proof -
  let ?d = digital_response_table
  let ?t = "store_bits (heap s ?d) [port * 8..port * 8 + int 8 - 1] b"
  have nth: "?t ! k =
     (if port * 8 \<le> int k \<and> int k < port * 8 + int 8
      then (heap s ?d ! k)\<lparr>entry_value := drop_bit (nat (int k - port * 8)) b AND 0x01\<rparr>
      else heap s ?d ! k)" if "k < length (heap s ?d)" for k
    using assms(2) that by (intro store_bits_upto_nth) simp_all
  have inside: "?t ! (nat port * 8 + i)
      = (heap s ?d ! (nat port * 8 + i))\<lparr>entry_value := drop_bit i b AND 1\<rparr>" if "i < 8" for i
  proof -
    have k: "nat port * 8 + i < length (heap s ?d)" using assms(2,3) that by linarith
    have "int (nat port * 8 + i) - port * 8 = int i" using assms(2) by simp
    then show ?thesis using nth [OF k] assms(2) that by simp
  qed
  have outside: "?t ! k = heap s ?d ! k"
    if "k < length (heap s ?d)" "k < nat port * 8 \<or> nat port * 8 + 8 \<le> k" for k
  proof -
    have "\<not> (port * 8 \<le> int k \<and> int k < port * 8 + int 8)"
      using that(2) assms(2) by linarith
    then have "(port * 8 \<le> int k \<and> int k < port * 8 + int 8) = False"
      by (rule eq_False [THEN iffD2])
    then show ?thesis by (simp only: nth [OF that(1)] if_False)
  qed
  show ?thesis
    using inside outside tables_distinct
    by (simp add: digital_message_returns [OF assms(1-3)] assms(4) length_store_bits)
qed

text \<open>An instance: port 0 of an eight-pin table and the byte \<open>0xA5\<close>.\<close>

theorem digital_message_sets_port_bits_witness:
  "entry_value (heap (state_of (digital_message
        \<lparr>data_lock = 0, number_digital_pins = 8, number_analog_pins = 0, transport = 0\<rparr>
        [0, 0x25, 0x01] (state_of (init 0 0 8 0 class_body)))) digital_response_table ! 0) = 1
   \<and> entry_value (heap (state_of (digital_message
        \<lparr>data_lock = 0, number_digital_pins = 8, number_analog_pins = 0, transport = 0\<rparr>
        [0, 0x25, 0x01] (state_of (init 0 0 8 0 class_body)))) digital_response_table ! 1) = 0
   \<and> entry_value (heap (state_of (digital_message
        \<lparr>data_lock = 0, number_digital_pins = 8, number_analog_pins = 0, transport = 0\<rparr>
        [0, 0x25, 0x01] (state_of (init 0 0 8 0 class_body)))) digital_response_table ! 7) = 1"
proof -
  define self where "self = \<lparr>data_lock = 0, number_digital_pins = 8, number_analog_pins = 0, transport = 0\<rparr>"
  define s where "s = state_of (init 0 0 8 0 class_body)"
  have free: "\<not> lock_held s (data_lock self)"
    by (simp add: s_def self_def init_returns class_body_def)
  have rng: "0 * 8 + 8 \<le> int (length (heap s digital_response_table))"
    by (simp add: s_def init_returns class_body_def tables_distinct)
  have b: "push_bit 7 (0x01 :: int) + 0x25 = 0xA5"
    by simp
  obtain s' where r: "digital_message self [0, 0x25, 0x01] s = Returns () s'"
    and bits: "\<forall>i<8. heap s' digital_response_table ! (nat 0 * 8 + i)
           = (heap s digital_response_table ! (nat 0 * 8 + i))\<lparr>entry_value := drop_bit i 0xA5 AND 1\<rparr>"
    using digital_message_sets_port_bits [OF free _ rng b] by auto
  have "entry_value (heap s' digital_response_table ! 0) = 1"
    "entry_value (heap s' digital_response_table ! 1) = 0"
    "entry_value (heap s' digital_response_table ! 7) = 1"
    using bits [rule_format, of 0] bits [rule_format, of 1] bits [rule_format, of 7]
    by (simp_all add: drop_bit_eq_div)
  then show ?thesis
    using r by (simp add: s_def self_def)
qed

section \<open>The analog message\<close>

text \<open>
  C5. For every pin index \<open>k\<close> within the analog table and every two data bytes with the
  high bit clear, \<open>lsb\<close> then \<open>msb\<close>, which encode \<open>v = (msb << 7) + lsb\<close> (so \<open>v\<close> is a 14-bit
  value, and by \<open>fourteen_bit_encoding\<close> every 14-bit value is encoded so): the handler,
  called with the lock free, returns, and the analog table is the one before with the
  value of entry \<open>k\<close> set to \<open>v\<close>. The mode of entry \<open>k\<close> and everything else in the state
  are as before.
\<close>

theorem analog_message_stores_value:
  assumes "\<not> lock_held s (data_lock self)"
    and "0 \<le> k" and "k < int (length (heap s analog_response_table))"
    and "0 \<le> lsb" and "lsb < 128" and "0 \<le> msb" and "msb < 128"
    and "v = push_bit 7 msb + lsb"
  shows "analog_message self [k, lsb, msb] s =
           Returns () (s\<lparr>heap := (heap s)(analog_response_table :=
             (heap s analog_response_table)
               [nat k := (heap s analog_response_table ! nat k)\<lparr>entry_value := v\<rparr>])\<rparr>)
     \<and> 0 \<le> v \<and> v < 16384"
proof -
  have "0 \<le> v" "v < 16384"
    using assms(4-8) by (simp_all add: push_bit_eq_mult)
  then show ?thesis
    using assms(1-3,8)
    by (simp add: analog_message_def analog_message_steps_def py_getitem_def py_index_def
        lock_acquire_def lock_release_def store_pin_data_value_def fun_upd_idem)
qed

text \<open>An instance: pin 1 of a two-pin table and the largest value, 16383.\<close>

theorem analog_message_stores_value_witness:
  "heap (state_of (analog_message
        \<lparr>data_lock = 0, number_digital_pins = 0, number_analog_pins = 2, transport = 0\<rparr>
        [1, 0x7F, 0x7F] (state_of (init 0 0 0 2 class_body)))) analog_response_table
     = [\<lparr>entry_mode = INPUT, entry_value = 0\<rparr>, \<lparr>entry_mode = INPUT, entry_value = 16383\<rparr>]"
proof -
  define self where "self = \<lparr>data_lock = 0, number_digital_pins = 0, number_analog_pins = 2, transport = 0\<rparr>"
  define s where "s = state_of (init 0 0 0 2 class_body)"
  have free: "\<not> lock_held s (data_lock self)"
    by (simp add: s_def self_def init_returns class_body_def)
  have k: "(1::int) < int (length (heap s analog_response_table))"
    by (simp add: s_def init_returns class_body_def tables_distinct)
  have v: "(16383::int) = push_bit 7 0x7F + 0x7F"
    by simp
  have "analog_message self [1, 0x7F, 0x7F] s =
           Returns () (s\<lparr>heap := (heap s)(analog_response_table :=
             (heap s analog_response_table)
               [nat 1 := (heap s analog_response_table ! nat 1)\<lparr>entry_value := 16383\<rparr>])\<rparr>)"
    using analog_message_stores_value [OF free _ k _ _ _ _ v] by simp
  then show ?thesis
    by (simp add: s_def self_def init_returns class_body_def tables_distinct eval_nat_numeral)
qed

section \<open>The encoder data\<close>

text \<open>
  C6, as stated, at a concrete input: a board with 20 digital pins and the payload
  \<^verbatim>\<open>[20, 0x7F, 0x7F]\<close>. The claim is for every payload; here the handler raises IndexError
  and stores nothing: the digital table is the one before, with 20 entries, none of them
  for pin 20.
\<close>

theorem encoder_data_pin_beyond_table_stores_nothing:
  "failure_of (encoder_data
        \<lparr>data_lock = 0, number_digital_pins = 20, number_analog_pins = 6, transport = 0\<rparr>
        [20, 0x7F, 0x7F] (state_of (init 0 0 20 6 class_body))) = Some (Raised IndexError)
   \<and> heap (state_of (encoder_data
        \<lparr>data_lock = 0, number_digital_pins = 20, number_analog_pins = 6, transport = 0\<rparr>
        [20, 0x7F, 0x7F] (state_of (init 0 0 20 6 class_body)))) digital_response_table
       = heap (state_of (init 0 0 20 6 class_body)) digital_response_table
   \<and> length (heap (state_of (init 0 0 20 6 class_body)) digital_response_table) = 20"
  by (simp add: encoder_data_triple init_returns class_body_def lock_acquire_def
      store_pin_data_value_def py_index_def tables_distinct)

text \<open>
  C6, amended. For every payload \<^verbatim>\<open>[pin, LSB, MSB]\<close> whose \<open>pin\<close> is an index within the
  digital table, with \<open>raw = (MSB << 7) + LSB\<close>: the handler, called with the lock free,
  returns, and the state is the one before with the value of entry \<open>pin\<close> of the digital
  table set to \<open>raw - 16384\<close> if \<open>raw > 8192\<close> and to \<open>raw\<close> otherwise. The analog table is
  as before: there is no table of encoder values.
\<close>

theorem encoder_data_stores_signed_value:
  assumes "\<not> lock_held s (data_lock self)"
    and "0 \<le> pin" and "pin < int (length (heap s digital_response_table))"
    and "raw = push_bit 7 msb + lsb"
  shows "encoder_data self [pin, lsb, msb] s =
           Returns () (s\<lparr>heap := (heap s)(digital_response_table :=
             (heap s digital_response_table)
               [nat pin := (heap s digital_response_table ! nat pin)
                  \<lparr>entry_value := (if raw > 8192 then raw - 16384 else raw)\<rparr>])\<rparr>)
     \<and> heap (state_of (encoder_data self [pin, lsb, msb] s)) analog_response_table
         = heap s analog_response_table"
  using assms tables_distinct
  by (simp add: encoder_data_triple lock_acquire_def lock_release_def store_pin_data_value_def
      py_index_def fun_upd_idem)

text \<open>Two instances: the raw value 16383 is stored as -1, the raw value 8192 as itself.\<close>

theorem encoder_data_stores_signed_value_witness:
  "heap (state_of (encoder_data
        \<lparr>data_lock = 0, number_digital_pins = 2, number_analog_pins = 1, transport = 0\<rparr>
        [1, 0x7F, 0x7F] (state_of (init 0 0 2 1 class_body)))) digital_response_table
     = [\<lparr>entry_mode = INPUT, entry_value = 0\<rparr>, \<lparr>entry_mode = INPUT, entry_value = - 1\<rparr>]
   \<and> heap (state_of (encoder_data
        \<lparr>data_lock = 0, number_digital_pins = 2, number_analog_pins = 1, transport = 0\<rparr>
        [0, 0x00, 0x40] (state_of (init 0 0 2 1 class_body)))) digital_response_table
     = [\<lparr>entry_mode = INPUT, entry_value = 8192\<rparr>, \<lparr>entry_mode = INPUT, entry_value = 0\<rparr>]"
proof -
  define self where "self = \<lparr>data_lock = 0, number_digital_pins = 2, number_analog_pins = 1, transport = 0\<rparr>"
  define s where "s = state_of (init 0 0 2 1 class_body)"
  have free: "\<not> lock_held s (data_lock self)"
    by (simp add: s_def self_def init_returns class_body_def)
  have k1: "(1::int) < int (length (heap s digital_response_table))"
    and k0: "(0::int) < int (length (heap s digital_response_table))"
    by (simp_all add: s_def init_returns class_body_def tables_distinct)
  have r1: "(16383::int) = push_bit 7 0x7F + 0x7F" and r0: "(8192::int) = push_bit 7 0x40 + 0x00"
    by simp_all
  have "heap (state_of (encoder_data self [1, 0x7F, 0x7F] s)) digital_response_table
     = [\<lparr>entry_mode = INPUT, entry_value = 0\<rparr>, \<lparr>entry_mode = INPUT, entry_value = - 1\<rparr>]"
    using encoder_data_stores_signed_value [OF free _ k1 r1, THEN conjunct1]
    by (simp add: s_def init_returns class_body_def tables_distinct eval_nat_numeral)
  moreover have "heap (state_of (encoder_data self [0, 0x00, 0x40] s)) digital_response_table
     = [\<lparr>entry_mode = INPUT, entry_value = 8192\<rparr>, \<lparr>entry_mode = INPUT, entry_value = 0\<rparr>]"
    using encoder_data_stores_signed_value [OF free _ k0 r0, THEN conjunct1]
    by (simp add: s_def init_returns class_body_def tables_distinct eval_nat_numeral)
  ultimately show ?thesis
    by (simp only: s_def self_def)
qed

section \<open>A pin beyond the table\<close>

text \<open>
  C10. \<^verbatim>\<open>analog_message\<close> and \<^verbatim>\<open>encoder_data\<close> index their table with \<^verbatim>\<open>data[0]\<close> and check no
  bound. With the lock free at the call: for a pin index at or beyond the length of the
  table, each handler raises IndexError (with the lock still held, for nothing releases
  it). Such an input is reachable: the analog command bytes \<open>0xE0\<close> to \<open>0xE9\<close> carry the pins
  0 to 9 whatever the length of the analog table, and the first byte of an
  \<^verbatim>\<open>ENCODER_DATA\<close> payload is any pin; on either message the receive loop does not go on to
  the bytes that follow but stops with the IndexError.
\<close>

theorem pin_beyond_table_raises:
  assumes "\<not> lock_held s (data_lock self)"
  shows "(int (length (heap s analog_response_table)) \<le> k \<longrightarrow>
            analog_message self [k, lsb, msb] s
              = Fails (Raised IndexError) (s\<lparr>lock_held := (lock_held s)(data_lock self := True)\<rparr>))
     \<and> (int (length (heap s digital_response_table)) \<le> pin \<longrightarrow>
            encoder_data self [pin, lsb, msb] s
              = Fails (Raised IndexError) (s\<lparr>lock_held := (lock_held s)(data_lock self := True)\<rparr>))
     \<and> (int (length (heap s analog_response_table)) \<le> k \<and> k \<le> 9 \<longrightarrow>
            run self ((ANALOG_MESSAGE + k) # lsb # msb # rest) s
              = Stopped (Raised IndexError) (s\<lparr>lock_held := (lock_held s)(data_lock self := True)\<rparr>))
     \<and> (int (length (heap s digital_response_table)) \<le> pin
          \<and> pin \<noteq> END_SYSEX \<and> lsb \<noteq> END_SYSEX \<and> msb \<noteq> END_SYSEX \<longrightarrow>
            run self (START_SYSEX # ENCODER_DATA # pin # lsb # msb # END_SYSEX # rest) s
              = Stopped (Raised IndexError) (s\<lparr>lock_held := (lock_held s)(data_lock self := True)\<rparr>))"
proof (intro conjI impI)
  assume "int (length (heap s analog_response_table)) \<le> k"
  then show "analog_message self [k, lsb, msb] s
     = Fails (Raised IndexError) (s\<lparr>lock_held := (lock_held s)(data_lock self := True)\<rparr>)"
    by (rule analog_message_beyond_table [OF assms])
next
  assume "int (length (heap s digital_response_table)) \<le> pin"
  then show "encoder_data self [pin, lsb, msb] s
     = Fails (Raised IndexError) (s\<lparr>lock_held := (lock_held s)(data_lock self := True)\<rparr>)"
    by (rule encoder_data_beyond_table [OF assms])
next
  assume k: "int (length (heap s analog_response_table)) \<le> k \<and> k \<le> 9"
  then have k0: "0 \<le> k" by linarith
  have nib: "(0xE0 + k) AND 0xf = k"
    using k0 k by (intro low_nibble_of_analog_command) simp_all
  have cmd: "0xE0 + k \<noteq> 0xF0" "0x80 \<le> 0xE0 + k" "0xE0 + k \<le> 0xff"
    "\<not> (0x90 \<le> 0xE0 + k \<and> 0xE0 + k \<le> 0x9f)" "0xe0 \<le> 0xE0 + k" "0xE0 + k \<le> 0xe9"
    using k0 k by simp_all
  have args: "read_args 2 (lsb # msb # rest) [k] = Some ([k, lsb, msb], rest)"
    by (simp add: numeral_2_eq_2)
  show "run self ((ANALOG_MESSAGE + k) # lsb # msb # rest) s
     = Stopped (Raised IndexError) (s\<lparr>lock_held := (lock_held s)(data_lock self := True)\<rparr>)"
    using cmd nib args analog_message_beyond_table [OF assms, of k lsb msb] k
    by (simp add: command_dispatch_def)
next
  assume p: "int (length (heap s digital_response_table)) \<le> pin
          \<and> pin \<noteq> END_SYSEX \<and> lsb \<noteq> END_SYSEX \<and> msb \<noteq> END_SYSEX"
  then have body: "read_sysex (pin # lsb # msb # END_SYSEX # rest) [] = Some ([pin, lsb, msb], rest)"
    by simp
  show "run self (START_SYSEX # ENCODER_DATA # pin # lsb # msb # END_SYSEX # rest) s
     = Stopped (Raised IndexError) (s\<lparr>lock_held := (lock_held s)(data_lock self := True)\<rparr>)"
    using body encoder_data_beyond_table [OF assms, of pin lsb msb] p
    by (simp add: command_dispatch_def)
qed

text \<open>
  An instance: 20 digital and 6 analog pins; the analog message for pin 9, followed by a
  version report that is never read, and the encoder data for pin 20.
\<close>

theorem pin_beyond_table_raises_witness:
  "run \<lparr>data_lock = 0, number_digital_pins = 20, number_analog_pins = 6, transport = 0\<rparr>
     [0xE9, 0x10, 0x00, REPORT_VERSION, 2, 3] (state_of (init 0 0 20 6 class_body))
     = Stopped (Raised IndexError)
         ((state_of (init 0 0 20 6 class_body))
            \<lparr>lock_held := (lock_held (state_of (init 0 0 20 6 class_body)))(0 := True)\<rparr>)
   \<and> encoder_data \<lparr>data_lock = 0, number_digital_pins = 20, number_analog_pins = 6, transport = 0\<rparr>
       [20, 0x10, 0x00] (state_of (init 0 0 20 6 class_body))
     = Fails (Raised IndexError)
         ((state_of (init 0 0 20 6 class_body))
            \<lparr>lock_held := (lock_held (state_of (init 0 0 20 6 class_body)))(0 := True)\<rparr>)"
proof -
  define self where "self = \<lparr>data_lock = 0, number_digital_pins = 20, number_analog_pins = 6, transport = 0\<rparr>"
  define s where "s = state_of (init 0 0 20 6 class_body)"
  have free: "\<not> lock_held s (data_lock self)"
    by (simp add: s_def self_def init_returns class_body_def)
  have a: "int (length (heap s analog_response_table)) \<le> 9 \<and> (9::int) \<le> 9"
    and d: "int (length (heap s digital_response_table)) \<le> 20"
    by (simp_all add: s_def init_returns class_body_def tables_distinct)
  note inst = pin_beyond_table_raises [OF free, of 9 "0x10" "0x00" 20 "[REPORT_VERSION, 2, 3]"]
  have "run self ((ANALOG_MESSAGE + 9) # 0x10 # 0x00 # [REPORT_VERSION, 2, 3]) s
      = Stopped (Raised IndexError) (s\<lparr>lock_held := (lock_held s)(data_lock self := True)\<rparr>)"
    using inst a by blast
  moreover have "encoder_data self [20, 0x10, 0x00] s
      = Fails (Raised IndexError) (s\<lparr>lock_held := (lock_held s)(data_lock self := True)\<rparr>)"
    using inst d by blast
  ultimately show ?thesis
    by (simp add: s_def self_def)
qed

section \<open>Text of two bytes for each character\<close>

text \<open>
  C8, as stated, at a concrete input: the firmware report \<^verbatim>\<open>[1, 2, 0x41, 0, 0x42]\<close>, whose
  name portion has the odd length 3, and the string data \<^verbatim>\<open>[0x41, 0, 0x42]\<close>. The trailing
  byte \<open>0x42\<close> has no partner, and it is not ignored: the name stored and the characters
  printed are \<open>A\<close>, \<open>B\<close>.
\<close>

theorem two_byte_text_keeps_trailing_byte:
  "firmata_firmware (state_of (report_firmware
       \<lparr>data_lock = 0, number_digital_pins = 0, number_analog_pins = 0, transport = 0\<rparr>
       [1, 2, 0x41, 0, 0x42] class_body))
     = [PyInt 1, PyInt 2, PyStr [CHR ''A'', CHR ''B'']]
   \<and> printed (state_of (string_data
       \<lparr>data_lock = 0, number_digital_pins = 0, number_analog_pins = 0, transport = 0\<rparr>
       [0x41, 0, 0x42] class_body))
     = [PyStr ''_string_data:'', PyChars [CHR ''A'', CHR ''B'']]"
  by (simp add: report_firmware_def report_firmware_steps_def string_data_def
      string_data_steps_def py_getitem_def py_index_def py_chr_def class_body_def char_of_def)

text \<open>
  C8, amended. The characters are the bytes at the even offsets of the payload
  (\<^verbatim>\<open>data[2:][::2]\<close> for the firmware report, \<^verbatim>\<open>data[::2]\<close> for the string data), each through
  \<^verbatim>\<open>chr\<close>. When these bytes are in the range of \<^verbatim>\<open>chr\<close> (0 to 255, as every byte of the
  wire is), the message is processed whatever the length of the payload: the firmware
  report appends major, minor and the name, the string data prints its header and the
  characters. A payload of \<open>n\<close> bytes gives \<open>(n + 1) div 2\<close> characters, and when \<open>n\<close> is odd
  the last character is the trailing byte that has no partner.
\<close>

theorem two_byte_text_decoding:
  "(2 \<le> length data \<and> (\<forall>i \<in> set (slice_step2 (drop 2 data)). 0 \<le> i \<and> i < 256) \<longrightarrow>
      report_firmware self data s
        = Returns () (s\<lparr>firmata_firmware := firmata_firmware s @
            [PyInt (data ! 0), PyInt (data ! 1),
             PyStr (map char_of (slice_step2 (drop 2 data)))]\<rparr>))
   \<and> ((\<forall>i \<in> set (slice_step2 data). 0 \<le> i \<and> i < 256) \<longrightarrow>
      string_data self data s
        = Returns () (s\<lparr>printed := printed s @
            [PyStr ''_string_data:'', PyChars (map char_of (slice_step2 data))]\<rparr>))
   \<and> length (slice_step2 xs) = (length xs + 1) div 2
   \<and> (odd (length xs) \<longrightarrow> last (slice_step2 xs) = last xs)"
proof (intro conjI impI)
  assume a: "2 \<le> length data \<and> (\<forall>i \<in> set (slice_step2 (drop 2 data)). 0 \<le> i \<and> i < 256)"
  then have c: "chr_each (slice_step2 (drop 2 data)) = Inr (map char_of (slice_step2 (drop 2 data)))"
    by (intro chr_each_in_range) simp
  from a have "data \<noteq> []" by auto
  with a show "report_firmware self data s
        = Returns () (s\<lparr>firmata_firmware := firmata_firmware s @
            [PyInt (data ! 0), PyInt (data ! 1),
             PyStr (map char_of (slice_step2 (drop 2 data)))]\<rparr>)"
    by (simp add: report_firmware_def report_firmware_steps_def py_getitem_def py_index_def c)
next
  assume "\<forall>i \<in> set (slice_step2 data). 0 \<le> i \<and> i < 256"
  then have c: "chr_each (slice_step2 data) = Inr (map char_of (slice_step2 data))"
    by (rule chr_each_in_range)
  show "string_data self data s
        = Returns () (s\<lparr>printed := printed s @
            [PyStr ''_string_data:'', PyChars (map char_of (slice_step2 data))]\<rparr>)"
    by (simp add: string_data_def string_data_steps_def c)
next
  show "length (slice_step2 xs) = (length xs + 1) div 2"
    by (rule length_slice_step2)
next
  assume "odd (length xs)"
  then show "last (slice_step2 xs) = last xs"
    by (rule last_slice_step2)
qed

text \<open>An instance: the firmware report above.\<close>

theorem two_byte_text_decoding_witness:
  "report_firmware \<lparr>data_lock = 0, number_digital_pins = 0, number_analog_pins = 0, transport = 0\<rparr>
       [1, 2, 0x41, 0, 0x42] class_body
     = Returns () (class_body\<lparr>firmata_firmware :=
         [PyInt 1, PyInt 2, PyStr [char_of (0x41 :: int), char_of (0x42 :: int)]]\<rparr>)
   \<and> last (slice_step2 [0x41, 0, 0x42 :: int]) = 0x42"
proof -
  have a: "2 \<le> length [1, 2, 0x41, 0, 0x42 :: int]
      \<and> (\<forall>i \<in> set (slice_step2 (drop 2 [1, 2, 0x41, 0, 0x42 :: int])). 0 \<le> i \<and> i < 256)"
    by simp
  have o: "odd (length [0x41, 0, 0x42 :: int])"
    by simp
  note inst = two_byte_text_decoding [of "[1, 2, 0x41, 0, 0x42]" _ class_body "[0x41, 0, 0x42 :: int]"]
  from inst [THEN conjunct1, rule_format, OF a]
       inst [THEN conjunct2, THEN conjunct2, THEN conjunct2, rule_format, OF o]
  show ?thesis
    by (simp add: class_body_def)
qed

section \<open>The table accessors\<close>

text \<open>
  C2, as stated, at a concrete input: one analog pin. \<^verbatim>\<open>get_analog_response_table\<close> returns
  the address of the analog table itself. The list at that address is \<^verbatim>\<open>[[INPUT, 0]]\<close>
  when the accessor returns, \<^verbatim>\<open>[[INPUT, 5]]\<close> after an analog message for pin 0 with the
  value 5, and empty after a reset by a handler with no analog pin: what the caller holds
  follows every later change of the table.
\<close>

theorem accessor_returns_live_table:
  "get_analog_response_table
       \<lparr>data_lock = 0, number_digital_pins = 0, number_analog_pins = 1, transport = 0\<rparr>
       (state_of (init 0 0 0 1 class_body))
     = Returns analog_response_table (state_of (init 0 0 0 1 class_body))
   \<and> heap (state_of (init 0 0 0 1 class_body)) analog_response_table
     = [\<lparr>entry_mode = INPUT, entry_value = 0\<rparr>]
   \<and> heap (state_of (analog_message
       \<lparr>data_lock = 0, number_digital_pins = 0, number_analog_pins = 1, transport = 0\<rparr>
       [0, 5, 0] (state_of (init 0 0 0 1 class_body)))) analog_response_table
     = [\<lparr>entry_mode = INPUT, entry_value = 5\<rparr>]
   \<and> heap (state_of (system_reset
       \<lparr>data_lock = 0, number_digital_pins = 0, number_analog_pins = 0, transport = 0\<rparr>
       (state_of (init 0 0 0 1 class_body)))) analog_response_table
     = []"
proof -
  define s where "s = state_of (init 0 0 0 1 class_body)"
  define other where
    "other = \<lparr>data_lock = 0, number_digital_pins = 0, number_analog_pins = 0, transport = 0\<rparr>"
  have free: "\<not> lock_held s (data_lock other)"
    by (simp add: s_def init_returns class_body_def)
  have reset: "heap (state_of (system_reset other s)) analog_response_table = []"
    unfolding system_reset_returns [OF free] by (simp add: other_def)
  have rest: "get_analog_response_table
       \<lparr>data_lock = 0, number_digital_pins = 0, number_analog_pins = 1, transport = 0\<rparr> s
     = Returns analog_response_table s
   \<and> heap s analog_response_table = [\<lparr>entry_mode = INPUT, entry_value = 0\<rparr>]
   \<and> heap (state_of (analog_message
       \<lparr>data_lock = 0, number_digital_pins = 0, number_analog_pins = 1, transport = 0\<rparr>
       [0, 5, 0] s)) analog_response_table
     = [\<lparr>entry_mode = INPUT, entry_value = 5\<rparr>]"
    by (simp add: s_def init_returns class_body_def get_analog_response_table_def
        analog_message_def analog_message_steps_def py_getitem_def py_index_def
        lock_acquire_def lock_release_def store_pin_data_value_def tables_distinct
        fun_upd_idem)
  from rest reset show ?thesis
    by (simp only: s_def other_def)
qed

text \<open>
  C2, amended. Each accessor, called with the lock free, returns the reference to the
  live table (the list object that the handlers and the reset mutate in place), not a
  copy, and leaves the state as it was.
\<close>

theorem accessors_return_table_reference:
  assumes "\<not> lock_held s (data_lock self)"
  shows "get_analog_response_table self s = Returns analog_response_table s
     \<and> get_digital_response_table self s = Returns digital_response_table s"
  using assms
  by (simp add: get_analog_response_table_def get_digital_response_table_def lock_acquire_def
      lock_release_def fun_upd_idem)

text \<open>An instance: the two accessors right after the class body has run.\<close>

theorem accessors_return_table_reference_witness:
  "get_analog_response_table
       \<lparr>data_lock = 0, number_digital_pins = 0, number_analog_pins = 1, transport = 0\<rparr> class_body
     = Returns analog_response_table class_body
   \<and> get_digital_response_table
       \<lparr>data_lock = 0, number_digital_pins = 0, number_analog_pins = 1, transport = 0\<rparr> class_body
     = Returns digital_response_table class_body"
  using accessors_return_table_reference
    [of class_body "\<lparr>data_lock = 0, number_digital_pins = 0, number_analog_pins = 1, transport = 0\<rparr>"]
  by (simp add: class_body_def)

section \<open>More than one instance\<close>

text \<open>
  C9. The claim: for every instance the tables have as many entries as the instance has
  pins, from construction on, also when more than one instance is made in the process.
  The code: both tables are attributes of the class, and \<^verbatim>\<open>__init__\<close> appends to them. A
  first instance with 2 digital and 1 analog pins, then a second with 3 and 2: the
  tables, which both instances share, have 5 and 3 entries, neither 2 and 1 nor 3 and 2.
  A reset by the first instance then leaves 2 digital entries, where the second
  instance has 3 pins.
\<close>

theorem second_instance_breaks_table_lengths:
  "length (heap (state_of (init trB lkB 3 2 (state_of (init trA lkA 2 1 class_body))))
      digital_response_table) = 5
   \<and> length (heap (state_of (init trB lkB 3 2 (state_of (init trA lkA 2 1 class_body))))
      analog_response_table) = 3
   \<and> length (heap (state_of (system_reset
        \<lparr>data_lock = lkA, number_digital_pins = 2, number_analog_pins = 1, transport = trA\<rparr>
        (state_of (init trB lkB 3 2 (state_of (init trA lkA 2 1 class_body))))))
      digital_response_table) = 2"
proof -
  define s where "s = state_of (init trB lkB 3 2 (state_of (init trA lkA 2 1 class_body)))"
  define first where
    "first = \<lparr>data_lock = lkA, number_digital_pins = 2, number_analog_pins = 1, transport = trA\<rparr>"
  have free: "\<not> lock_held s (data_lock first)"
    by (simp add: s_def init_returns class_body_def)
  have reset: "length (heap (state_of (system_reset first s)) digital_response_table) = 2"
    unfolding system_reset_returns [OF free] using tables_distinct by (simp add: first_def)
  have both: "length (heap s digital_response_table) = 5
      \<and> length (heap s analog_response_table) = 3"
    using tables_distinct by (simp add: s_def init_returns class_body_def)
  from both reset show ?thesis
    by (simp only: s_def first_def)
qed

end
